theory Spec2Isabelle
  imports Main "HOL-Library.Word"
begin

section \<open>Strings of the program\<close>

text \<open>
  A JavaScript string is a sequence of code units. It is modelled as a \<^typ>\<open>string\<close>,
  one \<^typ>\<open>char\<close> for each code unit, read as the code point of that value: the model
  covers the strings whose code units are below 256 (ASCII and Latin-1), and
  \<open>length\<close>, \<open>take\<close> count code units as \<open>.length\<close> and \<open>.substring\<close> do.
\<close>

definition toLowerCaseChar :: "char \<Rightarrow> char" where
  \<comment> \<open>\<open>String.prototype.toLowerCase\<close> on one code unit below 256: A-Z and the Latin-1
      capitals U+00C0..U+00DE (without the multiplication sign U+00D7) move up by 32.\<close>
  "toLowerCaseChar c =
     (let n = (of_char c :: nat)
      in if (65 \<le> n \<and> n \<le> 90) \<or> (192 \<le> n \<and> n \<le> 222 \<and> n \<noteq> 215)
         then char_of (n + 32) else c)"

definition toLowerCase :: "string \<Rightarrow> string" where
  "toLowerCase s = map toLowerCaseChar s"

definition isWhiteSpace :: "char \<Rightarrow> bool" where
  \<comment> \<open>what \<open>trim\<close> strips, below 256: TAB, LF, VT, FF, CR, SPACE, NBSP\<close>
  "isWhiteSpace c \<longleftrightarrow> (of_char c :: nat) \<in> {9, 10, 11, 12, 13, 32, 160}"

definition trim :: "string \<Rightarrow> string" where
  "trim s = rev (dropWhile isWhiteSpace (rev (dropWhile isWhiteSpace s)))"

definition substring0 :: "nat \<Rightarrow> string \<Rightarrow> string" where
  \<comment> \<open>\<open>s.substring(0, n)\<close>\<close>
  "substring0 n s = take n s"

definition startsWith :: "string \<Rightarrow> string \<Rightarrow> bool" where
  \<comment> \<open>\<open>s.startsWith(p)\<close>\<close>
  "startsWith s p \<longleftrightarrow> take (length p) s = p"

definition replaceAll :: "char \<Rightarrow> string \<Rightarrow> string \<Rightarrow> string" where
  \<comment> \<open>\<open>s.replace(/c/g, r)\<close> for a one-character pattern and a replacement without \<open>$\<close>\<close>
  "replaceAll c r s = concat (map (\<lambda>x. if x = c then r else [x]) s)"

fun showNat :: "nat \<Rightarrow> string" where
  "showNat n =
     (if n < 10 then [char_of (48 + n)]
      else showNat (n div 10) @ [char_of (48 + n mod 10)])"

declare showNat.simps [simp del]

definition showInt :: "int \<Rightarrow> string" where
  \<comment> \<open>a template literal's rendering of an integral number\<close>
  "showInt i = (if i < 0 then CHR ''-'' # showNat (nat (- i)) else showNat (nat i))"

fun contains :: "string \<Rightarrow> string \<Rightarrow> bool" where
  \<comment> \<open>\<open>contains s p\<close>: \<open>p\<close> occurs in \<open>s\<close> as a contiguous piece\<close>
  "contains [] p = (p = [])"
| "contains (c # cs) p = (take (length p) (c # cs) = p \<or> contains cs p)"

section \<open>Recipient resolver: the regular expression \<open>/\+(.+)@/\<close>\<close>

definition isLineTerminator :: "char \<Rightarrow> bool" where
  \<comment> \<open>the code units below 256 that \<open>.\<close> does not match: LF and CR\<close>
  "isLineTerminator c \<longleftrightarrow> c = CHR 0x0A \<or> c = CHR 0x0D"

fun dotStarAt :: "string \<Rightarrow> string option" where
  \<comment> \<open>\<open>.*@\<close> at the head of the text, by backtracking: the greedy star first takes one
      more character; only when the rest cannot match does it stop and ask for \<open>@\<close>.
      The result is what the star has consumed.\<close>
  "dotStarAt [] = None"
| "dotStarAt (c # cs) =
     (if isLineTerminator c then None
      else (case dotStarAt cs of
              Some g \<Rightarrow> Some (c # g)
            | None \<Rightarrow> if c = CHR ''@'' then Some [] else None))"

definition dotPlusAt :: "string \<Rightarrow> string option" where
  \<comment> \<open>\<open>(.+)@\<close> at the head of the text: one character that is no line terminator, then
      \<open>.*@\<close>. The result is the capture group.\<close>
  "dotPlusAt s =
     (case s of
        [] \<Rightarrow> None
      | c # cs \<Rightarrow>
          if isLineTerminator c then None
          else (case dotStarAt cs of Some g \<Rightarrow> Some (c # g) | None \<Rightarrow> None))"

fun matchSubAddress :: "string \<Rightarrow> string option" where
  \<comment> \<open>\<open>s.match(/\+(.+)@/)\<close>: the leftmost start position that matches; \<open>None\<close> is the
      \<open>null\<close> of no match, \<open>Some g\<close> is \<open>match[1]\<close>.\<close>
  "matchSubAddress [] = None"
| "matchSubAddress (c # cs) =
     (if c = CHR ''+''
      then (case dotPlusAt cs of Some g \<Rightarrow> Some g | None \<Rightarrow> matchSubAddress cs)
      else matchSubAddress cs)"

definition chatIdOf :: "string \<Rightarrow> string option" where
  \<comment> \<open>\<open>toAddress = email.to.toLowerCase(); match = toAddress.match(...); chatId = match[1]\<close>\<close>
  "chatIdOf to = matchSubAddress (toLowerCase to)"

section \<open>Content normalizer\<close>

fun stripTags :: "bool \<Rightarrow> string \<Rightarrow> string" where
  \<comment> \<open>\<open>html.replace(/<[^>]*>?/gm, '')\<close>: from every \<open><\<close> the text up to and with the next
      \<open>>\<close> goes, up to the end when there is none. The flag says that a tag is open.\<close>
  "stripTags inTag [] = []"
| "stripTags True (c # cs) = (if c = CHR ''>'' then stripTags False cs else stripTags True cs)"
| "stripTags False (c # cs) =
     (if c = CHR ''<'' then stripTags True cs else c # stripTags False cs)"

definition truncationMarker :: string where
  "truncationMarker = ''...'' @ [CHR 0x0A] @ ''[Message Truncated]''"

definition snippetLength :: nat where
  "snippetLength = 500"

definition snippetOf :: "string \<Rightarrow> string" where
  \<comment> \<open>\<open>cleanTextBody.substring(0, snippetLength) +
       (cleanTextBody.length > snippetLength ? "...\n[Message Truncated]" : "")\<close>\<close>
  "snippetOf cleanTextBody =
     substring0 snippetLength cleanTextBody
     @ (if length cleanTextBody > snippetLength then truncationMarker else [])"

definition escapeHtml :: "string \<Rightarrow> string" where
  "escapeHtml unsafe =
     replaceAll (CHR 0x27) ''&#039;''
       (replaceAll (CHR 0x22) ''&quot;''
         (replaceAll (CHR ''>'') ''&gt;''
           (replaceAll (CHR ''<'') ''&lt;''
             (replaceAll (CHR ''&'') ''&amp;'' unsafe))))"

definition escapeChar :: "char \<Rightarrow> string" where
  \<comment> \<open>the entity table as the specification words it: one character, one entity\<close>
  "escapeChar c =
     (if c = CHR ''&'' then ''&amp;''
      else if c = CHR ''<'' then ''&lt;''
      else if c = CHR ''>'' then ''&gt;''
      else if c = CHR 0x22 then ''&quot;''
      else if c = CHR 0x27 then ''&#039;''
      else [c])"

definition escapeHtml_spec :: "string \<Rightarrow> string" where
  \<comment> \<open>the specification's escape: every character of the input replaced once, in one pass\<close>
  "escapeHtml_spec x = concat (map escapeChar x)"

section \<open>Data of the pipeline\<close>

text \<open>
  A character outside the modelled range occurs only in the literals of the message
  templates (pictographs and a box-drawing rule). Such a character is written as its
  code point between braces; no operation of the program inspects these literals.
\<close>

definition glyph :: "string \<Rightarrow> string" where
  "glyph codePoint = ''{'' @ codePoint @ ''}''"

definition nl :: string where
  "nl = [CHR 0x0A]"

definition ruleLine :: string where
  "ruleLine = concat (replicate 20 (glyph ''U+2501''))"

record env =
  TELEGRAM_BOT_TOKEN :: string
  DOMAIN :: string

record attachment =
  filename :: "string option"
  mimeType :: "string option"
  content :: "8 word list"

record parsedEmail =
  parsedSubject :: "string option"
  parsedText :: "string option"
  parsedHtml :: "string option"
  parsedAttachments :: "attachment list"

text \<open>
  \<open>onEmail\<close> receives the email with its MIME structure already decoded: \<open>getRaw\<close> and
  \<open>PostalMime.parse\<close> are the collaborator, their result is the field \<open>emailParsed\<close>.
\<close>

record agentEmail =
  emailFrom :: string
  emailTo :: string
  emailParsed :: parsedEmail

datatype json = JStr string | JNum int | JArr "json list" | JObj "(string \<times> json) list"

datatype formValue = FormText string | FormFile "8 word list" string string

datatype requestBody = JsonBody json | FormBody "(string \<times> formValue) list"

record request =
  url :: string
  httpMethod :: string
  headers :: "(string \<times> string) list"
  body :: requestBody

datatype event =
    Fetch request
  | AiRun string "(string \<times> string) list"
  | ConsoleWarn "string list"
  | ConsoleError "string list"

text \<open>
  The outside world answers each call; what it answers may depend on everything that has
  happened before (the events so far). A \<open>fetch\<close> either rejects (no response arrives)
  or resolves to a response, read here with its status and its body text. The AI binding
  either throws or returns an object whose \<open>response\<close> field may be absent.
\<close>

datatype fetchResult = Rejected string | Response nat string

datatype aiResult = AiThrows string | AiReturns "string option"

record world =
  fetch :: "event list \<Rightarrow> request \<Rightarrow> fetchResult"
  aiRun :: "event list \<Rightarrow> string \<Rightarrow> (string \<times> string) list \<Rightarrow> aiResult"

datatype error = ConfigError string | Thrown string

definition ok :: "nat \<Rightarrow> bool" where
  \<comment> \<open>\<open>response.ok\<close>\<close>
  "ok st \<longleftrightarrow> 200 \<le> st \<and> st \<le> 299"

definition orElse :: "string option \<Rightarrow> string \<Rightarrow> string" where
  \<comment> \<open>\<open>a || b\<close> for an optional string: absent and empty are both falsy\<close>
  "orElse a b = (case a of None \<Rightarrow> b | Some s \<Rightarrow> if s = [] then b else s)"

definition apiUrl :: "string \<Rightarrow> string \<Rightarrow> string" where
  "apiUrl token endpoint = ''https://api.telegram.org/bot'' @ token @ ''/'' @ endpoint"

section \<open>Summarizer\<close>

definition aiModel :: string where
  "aiModel = ''@cf/zai-org/glm-4.7-flash''"

definition systemPrompt :: string where
  "systemPrompt = ''You are a highly efficient assistant. Summarize the following email text into exactly one concise, informative sentence.''"

definition skipSummary :: string where
  "skipSummary = ''No content available to summarize.''"

definition noResultSummary :: string where
  "noResultSummary = ''Summary generation yielded no result.''"

definition unavailableSummary :: string where
  "unavailableSummary = ''Automated summary temporarily unavailable.''"

definition aiMessages :: "string \<Rightarrow> (string \<times> string) list" where
  "aiMessages boundedText = [(''system'', systemPrompt), (''user'', boundedText)]"

definition generateEmailSummary :: "world \<Rightarrow> string \<Rightarrow> event list \<Rightarrow> string \<times> event list" where
  \<comment> \<open>the \<open>try\<close> block with its \<open>catch\<close>: the function has no way to throw\<close>
  "generateEmailSummary w txt h =
     (let boundedText = substring0 2000 txt;
          h1 = h @ [AiRun aiModel (aiMessages boundedText)]
      in case aiRun w h aiModel (aiMessages boundedText) of
           AiReturns r \<Rightarrow>
             (case r of
                Some s \<Rightarrow> if s \<noteq> [] then (trim s, h1) else (noResultSummary, h1)
              | None \<Rightarrow> (noResultSummary, h1))
         | AiThrows e \<Rightarrow>
             (unavailableSummary, h1 @ [ConsoleError [''AI Summarization failed:'', e]]))"

definition summaryStep :: "world \<Rightarrow> string \<Rightarrow> event list \<Rightarrow> string \<times> event list" where
  \<comment> \<open>\<open>let aiSummary = "No content ..."; if (cleanTextBody.length > 20) aiSummary = await ...\<close>\<close>
  "summaryStep w cleanTextBody h =
     (if length cleanTextBody > 20 then generateEmailSummary w cleanTextBody h
      else (skipSummary, h))"

section \<open>Dispatcher\<close>

definition dismissKeyboard :: json where
  "dismissKeyboard =
     JObj [(''inline_keyboard'',
            JArr [JArr [JObj [(''text'', JStr (glyph ''U+1F5D1'' @ glyph ''U+FE0F'' @ '' Dismiss Email'')),
                              (''callback_data'', JStr ''dismiss'')]]])]"

definition sendMessageRequest :: "string \<Rightarrow> string \<Rightarrow> string \<Rightarrow> request" where
  "sendMessageRequest chatId txt token =
     \<lparr> url = apiUrl token ''sendMessage'',
       httpMethod = ''POST'',
       headers = [(''Content-Type'', ''application/json'')],
       body = JsonBody (JObj [(''chat_id'', JStr chatId),
                              (''text'', JStr txt),
                              (''parse_mode'', JStr ''HTML''),
                              (''reply_markup'', dismissKeyboard)]) \<rparr>"

definition sendTelegramMessage ::
  "world \<Rightarrow> string \<Rightarrow> string \<Rightarrow> string \<Rightarrow> event list \<Rightarrow> (error + unit) \<times> event list" where
  "sendTelegramMessage w chatId txt token h =
     (let req = sendMessageRequest chatId txt token;
          h1 = h @ [Fetch req]
      in case fetch w h req of
           Rejected e \<Rightarrow> (Inl (Thrown e), h1)
         | Response st b \<Rightarrow>
             if ok st then (Inr (), h1)
             else (Inr (), h1 @ [ConsoleError [''Telegram API Error (sendMessage): '' @ showNat st, b]]))"

definition fileNameOf :: "attachment \<Rightarrow> string" where
  "fileNameOf a = orElse (filename a) ''unnamed_attachment.bin''"

definition mimeTypeOf :: "attachment \<Rightarrow> string" where
  "mimeTypeOf a = orElse (mimeType a) ''application/octet-stream''"

definition toFixed2Kb :: "nat \<Rightarrow> string" where
  \<comment> \<open>\<open>(byteLength / 1024).toFixed(2)\<close>: the quotient is exact in binary floating point,
      \<open>toFixed\<close> rounds it to hundredths, a tie upwards\<close>
  "toFixed2Kb n =
     (let m = (200 * n + 1024) div 2048
      in showNat (m div 100) @ ''.'' @ showNat (m mod 100 div 10) @ showNat (m mod 10))"

definition captionOf :: "attachment \<Rightarrow> string" where
  "captionOf a =
     glyph ''U+1F4CE'' @ '' <b>Attachment:</b> <i>'' @ escapeHtml (fileNameOf a) @ ''</i>'' @ nl
     @ glyph ''U+1F4E6'' @ '' <b>Size:</b> '' @ toFixed2Kb (length (content a)) @ '' KB''"

definition sendDocumentRequest :: "string \<Rightarrow> attachment \<Rightarrow> string \<Rightarrow> request" where
  "sendDocumentRequest chatId a token =
     \<lparr> url = apiUrl token ''sendDocument'',
       httpMethod = ''POST'',
       headers = [],
       body = FormBody [(''chat_id'', FormText chatId),
                        (''document'', FormFile (content a) (fileNameOf a) (mimeTypeOf a)),
                        (''caption'', FormText (captionOf a)),
                        (''parse_mode'', FormText ''HTML'')] \<rparr>"

definition oversizeNotice :: "attachment \<Rightarrow> string" where
  "oversizeNotice a =
     glyph ''U+26A0'' @ glyph ''U+FE0F'' @ '' <b>Failed to send attachment.</b>'' @ nl
     @ ''File <i>'' @ escapeHtml (fileNameOf a) @ ''</i> exceeds Telegram''
     @ [CHR 0x27] @ ''s 50MB Bot API limit.''"

definition sendTelegramDocument ::
  "world \<Rightarrow> string \<Rightarrow> attachment \<Rightarrow> string \<Rightarrow> event list \<Rightarrow> (error + unit) \<times> event list" where
  "sendTelegramDocument w chatId a token h =
     (let req = sendDocumentRequest chatId a token;
          h1 = h @ [Fetch req]
      in case fetch w h req of
           Rejected e \<Rightarrow> (Inl (Thrown e), h1)
         | Response st b \<Rightarrow>
             if ok st then (Inr (), h1)
             else
               (let h2 = h1 @ [ConsoleError [''Telegram API Error (sendDocument): '' @ showNat st, b]]
                in if st = 413 then sendTelegramMessage w chatId (oversizeNotice a) token h2
                   else (Inr (), h2)))"

fun sendAttachments ::
  "world \<Rightarrow> string \<Rightarrow> string \<Rightarrow> attachment list \<Rightarrow> event list \<Rightarrow> (error + unit) \<times> event list" where
  \<comment> \<open>the \<open>for ... of\<close> loop: one awaited call after the other, a thrown error ends it\<close>
  "sendAttachments w chatId token [] h = (Inr (), h)"
| "sendAttachments w chatId token (a # as) h =
     (case sendTelegramDocument w chatId a token h of
        (Inl e, h') \<Rightarrow> (Inl e, h')
      | (Inr u, h') \<Rightarrow> sendAttachments w chatId token as h')"

section \<open>The email pipeline\<close>

definition textBodyOf :: "parsedEmail \<Rightarrow> string" where
  \<comment> \<open>\<open>parsed.text || parsed.html?.replace(/<[^>]*>?/gm, '') || ""\<close>\<close>
  "textBodyOf parsed =
     orElse (parsedText parsed) (orElse (map_option (stripTags False) (parsedHtml parsed)) [])"

definition messagePayloadOf ::
  "agentEmail \<Rightarrow> string \<Rightarrow> string \<Rightarrow> string \<Rightarrow> string" where
  "messagePayloadOf email toAddress aiSummary snippet =
     glyph ''U+1F4E5'' @ '' <b>New Email Received!</b>'' @ nl
     @ ruleLine @ nl
     @ glyph ''U+1F464'' @ '' <b>From:</b> <code>'' @ escapeHtml (emailFrom email) @ ''</code>'' @ nl
     @ glyph ''U+1F3AF'' @ '' <b>To:</b> <code>'' @ escapeHtml toAddress @ ''</code>'' @ nl
     @ glyph ''U+1F4D1'' @ '' <b>Subject:</b> <i>''
       @ escapeHtml (orElse (parsedSubject (emailParsed email)) ''No Subject'') @ ''</i>'' @ nl
     @ glyph ''U+1F4CE'' @ '' <b>Attachments:</b> ''
       @ showNat (length (parsedAttachments (emailParsed email))) @ nl
     @ ruleLine @ nl
     @ glyph ''U+1F916'' @ '' <b>AI Summary:</b>'' @ nl @ ''<i>'' @ escapeHtml aiSummary @ ''</i>'' @ nl
     @ ruleLine @ nl @ nl
     @ glyph ''U+1F4DD'' @ '' <b>Message:</b>'' @ nl
     @ ''<pre>'' @ escapeHtml (orElse (Some snippet) ''No readable text content.'') @ ''</pre>''"

definition tokenMissing :: error where
  "tokenMissing = ConfigError ''TELEGRAM_BOT_TOKEN is not configured in the environment.''"

definition onEmail ::
  "env \<Rightarrow> world \<Rightarrow> agentEmail \<Rightarrow> event list \<Rightarrow> (error + unit) \<times> event list" where
  "onEmail e w email h =
     (let parsed = emailParsed email;
          toAddress = toLowerCase (emailTo email)
      in case matchSubAddress toAddress of
           None \<Rightarrow>
             (Inr (), h @ [ConsoleWarn [''Dropped email: No chat ID found in recipient address'',
                                        toAddress]])
         | Some chatId \<Rightarrow>
             (let telegramToken = TELEGRAM_BOT_TOKEN e
              in if telegramToken = [] then (Inl tokenMissing, h)
                 else
                   (let cleanTextBody = trim (textBodyOf parsed);
                        (aiSummary, h1) = summaryStep w cleanTextBody h;
                        snippet = snippetOf cleanTextBody;
                        attachmentCount = length (parsedAttachments parsed);
                        messagePayload = messagePayloadOf email toAddress aiSummary snippet
                    in case sendTelegramMessage w chatId messagePayload telegramToken h1 of
                         (Inl err, h2) \<Rightarrow> (Inl err, h2)
                       | (Inr u, h2) \<Rightarrow>
                           if attachmentCount > 0
                           then sendAttachments w chatId telegramToken (parsedAttachments parsed) h2
                           else (Inr (), h2))))"

section \<open>Inbound command handler\<close>

record telegramMessage =
  message_id :: int
  chat_id :: int
  chat_type :: string
  messageText :: "string option"

record callbackMessage =
  cbMessage_id :: int
  cbChat_id :: int

record callbackQuery =
  cbId :: string
  cbData :: string
  cbMessage :: "callbackMessage option"

record telegramUpdate =
  update_id :: int
  message :: "telegramMessage option"
  callback_query :: "callbackQuery option"

text \<open>
  The webhook request with what the handler reads of it: the method, the path of the URL,
  and the result of \<open>request.json()\<close>, \<open>None\<close> when the body does not parse.
\<close>

record webRequest =
  reqMethod :: string
  pathname :: string
  reqJson :: "telegramUpdate option"

record webResponse =
  respBody :: string
  respStatus :: nat

definition okResponse :: webResponse where
  "okResponse = \<lparr> respBody = ''OK'', respStatus = 200 \<rparr>"

definition deleteMessageRequest :: "string \<Rightarrow> int \<Rightarrow> int \<Rightarrow> request" where
  "deleteMessageRequest token chatId messageId =
     \<lparr> url = apiUrl token ''deleteMessage'',
       httpMethod = ''POST'',
       headers = [(''Content-Type'', ''application/json'')],
       body = JsonBody (JObj [(''chat_id'', JNum chatId), (''message_id'', JNum messageId)]) \<rparr>"

definition userEmailOf :: "int \<Rightarrow> string \<Rightarrow> string" where
  "userEmailOf chatId domain = ''tempmail+'' @ showInt chatId @ ''@'' @ domain"

definition welcomeMsg :: "string \<Rightarrow> string" where
  "welcomeMsg userEmail =
     glyph ''U+2728'' @ '' <b>Premium AI TempMail Bot</b> '' @ glyph ''U+2728'' @ nl @ nl
     @ ''Your secure, disposable email address is active:'' @ nl @ nl
     @ glyph ''U+1F4E7'' @ '' <code>'' @ userEmail @ ''</code>'' @ nl @ nl
     @ ''<i>Tap the address to copy. Messages and attachments will be instantly delivered here with an AI-generated summary.</i>'' @ nl @ nl
     @ glyph ''U+1F6E1'' @ glyph ''U+FE0F'' @ '' <b>Powered by Cloudflare Agents</b>'' @ nl
     @ glyph ''U+1F4E3'' @ '' <b>Updates:</b> @drkingbd''"

definition welcomeRequest :: "string \<Rightarrow> int \<Rightarrow> string \<Rightarrow> request" where
  "welcomeRequest token chatId txt =
     \<lparr> url = apiUrl token ''sendMessage'',
       httpMethod = ''POST'',
       headers = [(''Content-Type'', ''application/json'')],
       body = JsonBody (JObj [(''chat_id'', JNum chatId),
                              (''text'', JStr txt),
                              (''parse_mode'', JStr ''HTML'')]) \<rparr>"

definition welcomeCall :: "env \<Rightarrow> int \<Rightarrow> request" where
  \<comment> \<open>the \<open>sendMessage\<close> call of the \<open>/start\<close> branch, with \<open>domain = env.DOMAIN\<close>\<close>
  "welcomeCall e chatId =
     welcomeRequest (TELEGRAM_BOT_TOKEN e) chatId (welcomeMsg (userEmailOf chatId (DOMAIN e)))"

definition awaitFetch ::
  "world \<Rightarrow> request \<Rightarrow> event list \<Rightarrow> (error + fetchResult) \<times> event list" where
  \<comment> \<open>\<open>await fetch(...)\<close> whose response is not looked at\<close>
  "awaitFetch w req h =
     (case fetch w h req of
        Rejected e \<Rightarrow> (Inl (Thrown e), h @ [Fetch req])
      | Response st b \<Rightarrow> (Inr (Response st b), h @ [Fetch req]))"

definition handleUpdate ::
  "env \<Rightarrow> world \<Rightarrow> webRequest \<Rightarrow> event list \<Rightarrow> (error + webResponse) \<times> event list" where
  \<comment> \<open>the body of the \<open>try\<close> block\<close>
  "handleUpdate e w request h =
     (case reqJson request of
        None \<Rightarrow> (Inl (Thrown ''request.json() rejected''), h)
      | Some update \<Rightarrow>
          (case (case callback_query update of
                   None \<Rightarrow> None
                 | Some cq \<Rightarrow> map_option (\<lambda>m. (cq, m)) (cbMessage cq)) of
             Some (cq, m) \<Rightarrow>
               if cbData cq = ''dismiss''
               then (case awaitFetch w (deleteMessageRequest (TELEGRAM_BOT_TOKEN e)
                                          (cbChat_id m) (cbMessage_id m)) h of
                       (Inl err, h') \<Rightarrow> (Inl err, h')
                     | (Inr r, h') \<Rightarrow> (Inr okResponse, h'))
               else (Inr okResponse, h)
           | None \<Rightarrow>
               (case message update of
                  None \<Rightarrow> (Inr okResponse, h)
                | Some msg \<Rightarrow>
                    if orElse (messageText msg) [] = [] then (Inr okResponse, h)
                    else
                      (let chatId = chat_id msg;
                           txt = trim (orElse (messageText msg) [])
                       in if startsWith txt ''/start''
                          then (case awaitFetch w (welcomeCall e chatId) h of
                                  (Inl err, h') \<Rightarrow> (Inl err, h')
                                | (Inr r, h') \<Rightarrow> (Inr okResponse, h'))
                          else (Inr okResponse, h)))))"

definition errorText :: "error \<Rightarrow> string" where
  "errorText err = (case err of ConfigError m \<Rightarrow> m | Thrown m \<Rightarrow> m)"

definition fetchHandler ::
  "env \<Rightarrow> world \<Rightarrow> webRequest \<Rightarrow> event list \<Rightarrow> webResponse \<times> event list" where
  "fetchHandler e w request h =
     (if reqMethod request = ''POST'' \<and> pathname request = ''/webhook/telegram''
      then (case handleUpdate e w request h of
              (Inr resp, h') \<Rightarrow> (resp, h')
            | (Inl err, h') \<Rightarrow>
                (\<lparr> respBody = ''Internal Server Error'', respStatus = 500 \<rparr>,
                 h' @ [ConsoleError [''Failed to process webhook:'', errorText err]]))
      else (\<lparr> respBody = ''Not Found'', respStatus = 404 \<rparr>, h))"

section \<open>Reading a trace\<close>

fun requestsOf :: "event list \<Rightarrow> request list" where
  \<comment> \<open>the outbound HTTP calls of a trace, in their order\<close>
  "requestsOf [] = []"
| "requestsOf (Fetch r # es) = r # requestsOf es"
| "requestsOf (ev # es) = requestsOf es"

fun isOutbound :: "event \<Rightarrow> bool" where
  \<comment> \<open>a call that leaves the program: an HTTP call or an AI invocation (logging is not)\<close>
  "isOutbound (Fetch r) = True"
| "isOutbound (AiRun m ms) = True"
| "isOutbound ev = False"

fun isAiRun :: "event \<Rightarrow> bool" where
  "isAiRun (AiRun m ms) = True"
| "isAiRun ev = False"

definition isSendMessage :: "string \<Rightarrow> request \<Rightarrow> bool" where
  \<comment> \<open>a text send: a call of the \<open>sendMessage\<close> endpoint\<close>
  "isSendMessage token r \<longleftrightarrow> url r = apiUrl token ''sendMessage''"

definition isSendDocument :: "string \<Rightarrow> request \<Rightarrow> bool" where
  \<comment> \<open>an attachment send: a call of the \<open>sendDocument\<close> endpoint\<close>
  "isSendDocument token r \<longleftrightarrow> url r = apiUrl token ''sendDocument''"

fun jsonField :: "string \<Rightarrow> json \<Rightarrow> json option" where
  "jsonField k (JObj kvs) = map_of kvs k"
| "jsonField k j = None"

definition bodyField :: "string \<Rightarrow> request \<Rightarrow> json option" where
  "bodyField k r = (case body r of JsonBody j \<Rightarrow> jsonField k j | FormBody fs \<Rightarrow> None)"

fun keyboardRows :: "json option \<Rightarrow> json list" where
  \<comment> \<open>the rows of an \<open>inline_keyboard\<close> field\<close>
  "keyboardRows (Some (JArr rows)) = rows"
| "keyboardRows j = []"

fun rowButtons :: "json \<Rightarrow> json list" where
  "rowButtons (JArr buttons) = buttons"
| "rowButtons j = []"

definition buttonsOf :: "request \<Rightarrow> json list" where
  \<comment> \<open>the buttons that a request shows: those of \<open>reply_markup.inline_keyboard\<close>, row by row\<close>
  "buttonsOf r =
     (case bodyField ''reply_markup'' r of
        None \<Rightarrow> []
      | Some markup \<Rightarrow> concat (map rowButtons (keyboardRows (jsonField ''inline_keyboard'' markup))))"

definition callbackDataOf :: "request \<Rightarrow> json option list" where
  \<comment> \<open>what each button of the request sends back when it is pressed\<close>
  "callbackDataOf r = map (jsonField ''callback_data'') (buttonsOf r)"

definition hasDismissKeyboard :: "request \<Rightarrow> bool" where
  \<comment> \<open>the request shows a button whose press sends \<open>dismiss\<close>, the payload on which the
      webhook deletes the message\<close>
  "hasDismissKeyboard r \<longleftrightarrow> Some (JStr ''dismiss'') \<in> set (callbackDataOf r)"

definition textOf :: "request \<Rightarrow> string" where
  "textOf r = (case bodyField ''text'' r of Some (JStr t) \<Rightarrow> t | _ \<Rightarrow> [])"

definition cleanTextBodyOf :: "agentEmail \<Rightarrow> string" where
  \<comment> \<open>\<open>cleanTextBody\<close> of an email\<close>
  "cleanTextBodyOf email = trim (textBodyOf (emailParsed email))"

definition notificationRequest :: "env \<Rightarrow> agentEmail \<Rightarrow> string \<Rightarrow> string \<Rightarrow> request" where
  \<comment> \<open>the text send of \<open>onEmail\<close>, for a chat and a summary\<close>
  "notificationRequest e email chatId aiSummary =
     sendMessageRequest chatId
       (messagePayloadOf email (toLowerCase (emailTo email)) aiSummary
          (snippetOf (cleanTextBodyOf email)))
       (TELEGRAM_BOT_TOKEN e)"

fun attachmentCalls :: "string \<Rightarrow> string \<Rightarrow> (attachment \<times> bool) list \<Rightarrow> request list" where
  \<comment> \<open>the calls that a run of attachments makes: for each attachment its file transfer,
      and right after it the oversize notice where the flag is set\<close>
  "attachmentCalls chatId token [] = []"
| "attachmentCalls chatId token ((a, oversize) # rest) =
     sendDocumentRequest chatId a token
     # (if oversize then [sendMessageRequest chatId (oversizeNotice a) token] else [])
     @ attachmentCalls chatId token rest"

fun answeredFrom :: "world \<Rightarrow> event list \<Rightarrow> event list \<Rightarrow> bool" where
  \<comment> \<open>\<open>answeredFrom w h es\<close>: of the events \<open>es\<close> that follow the history \<open>h\<close>, every HTTP call
      has received a response (the world, asked with what had happened before the call,
      did not reject it)\<close>
  "answeredFrom w h [] = True"
| "answeredFrom w h (Fetch r # es) =
     ((case fetch w h r of Rejected err \<Rightarrow> False | Response st b \<Rightarrow> True)
      \<and> answeredFrom w (h @ [Fetch r]) es)"
| "answeredFrom w h (ev # es) = answeredFrom w (h @ [ev]) es"

definition allAnswered :: "world \<Rightarrow> event list \<Rightarrow> event list \<Rightarrow> bool" where
  \<comment> \<open>every HTTP call that a run made, from the history \<open>h\<close> to the trace \<open>t\<close>, received a
      response\<close>
  "allAnswered w h t = answeredFrom w h (drop (length h) t)"

section \<open>Scenarios\<close>

text \<open>Concrete environments, worlds and inputs, on which the theorems below are run.\<close>

definition sampleEnv :: env where
  "sampleEnv = \<lparr> TELEGRAM_BOT_TOKEN = ''T'', DOMAIN = ''example.com'' \<rparr>"

definition unconfiguredEnv :: env where
  "unconfiguredEnv = \<lparr> TELEGRAM_BOT_TOKEN = [], DOMAIN = ''example.com'' \<rparr>"

definition reportPdf :: attachment where
  "reportPdf = \<lparr> filename = Some ''report.pdf'', mimeType = Some ''application/pdf'',
                 content = [37, 80, 68, 70] \<rparr>"

definition notesTxt :: attachment where
  "notesTxt = \<lparr> filename = Some ''a<b.txt'', mimeType = None, content = [104, 105] \<rparr>"

definition sampleEmail :: agentEmail where
  "sampleEmail =
     \<lparr> emailFrom = ''alice@example.org'',
       emailTo = ''tempmail+42@example.com'',
       emailParsed = \<lparr> parsedSubject = Some ''Report'',
                       parsedText = Some ''Please find the quarterly report attached.'',
                       parsedHtml = None,
                       parsedAttachments = [reportPdf, notesTxt] \<rparr> \<rparr>"

definition helloEmail :: agentEmail where
  "helloEmail =
     \<lparr> emailFrom = ''alice@example.org'',
       emailTo = ''foo+42@domain.com'',
       emailParsed = \<lparr> parsedSubject = None,
                       parsedText = Some ''Hello world'',
                       parsedHtml = None,
                       parsedAttachments = [] \<rparr> \<rparr>"

definition unroutedEmail :: agentEmail where
  "unroutedEmail = sampleEmail \<lparr> emailTo := ''tempmail@example.com'' \<rparr>"

definition quietWorld :: world where
  \<comment> \<open>every call is answered with 200; the model returns a sentence with blanks around it\<close>
  "quietWorld = \<lparr> fetch = (\<lambda>h r. Response 200 ''{}''),
                  aiRun = (\<lambda>h m ms. AiReturns (Some '' A summary. '')) \<rparr>"

definition oversizeWorld :: world where
  \<comment> \<open>every file transfer is answered with 413\<close>
  "oversizeWorld =
     quietWorld \<lparr> fetch := (\<lambda>h r. if isSendDocument ''T'' r then Response 413 ''too large''
                                else Response 200 ''{}'') \<rparr>"

definition forbiddenWorld :: world where
  \<comment> \<open>every file transfer is answered with 403\<close>
  "forbiddenWorld =
     quietWorld \<lparr> fetch := (\<lambda>h r. if isSendDocument ''T'' r then Response 403 ''forbidden''
                                else Response 200 ''{}'') \<rparr>"

definition rejectingWorld :: world where
  \<comment> \<open>no file transfer gets a response: its \<open>fetch\<close> rejects\<close>
  "rejectingWorld =
     quietWorld \<lparr> fetch := (\<lambda>h r. if isSendDocument ''T'' r then Rejected ''network error''
                                else Response 200 ''{}'') \<rparr>"

definition offlineWorld :: world where
  \<comment> \<open>no call gets a response\<close>
  "offlineWorld = quietWorld \<lparr> fetch := (\<lambda>h r. Rejected ''network error'') \<rparr>"

definition blankAiWorld :: world where
  \<comment> \<open>the model returns one blank\<close>
  "blankAiWorld = quietWorld \<lparr> aiRun := (\<lambda>h m ms. AiReturns (Some '' '')) \<rparr>"

definition startUpdate :: telegramUpdate where
  "startUpdate =
     \<lparr> update_id = 1,
       message = Some \<lparr> message_id = 5, chat_id = 7, chat_type = ''private'',
                        messageText = Some ''/start'' \<rparr>,
       callback_query = None \<rparr>"

definition startRequest :: webRequest where
  "startRequest =
     \<lparr> reqMethod = ''POST'', pathname = ''/webhook/telegram'', reqJson = Some startUpdate \<rparr>"

section \<open>Escaping\<close>

lemma replaceAll_Nil: "replaceAll c r [] = []"
  by (simp add: replaceAll_def)

lemma replaceAll_append: "replaceAll c r (a @ b) = replaceAll c r a @ replaceAll c r b"
  by (simp add: replaceAll_def)

lemma replaceAll_Cons: "replaceAll c r (x # xs) = (if x = c then r else [x]) @ replaceAll c r xs"
  by (simp add: replaceAll_def)

lemma escapeHtml_Nil: "escapeHtml [] = []"
  by (simp add: escapeHtml_def replaceAll_Nil)

lemma escapeHtml_Cons: "escapeHtml (c # cs) = escapeChar c @ escapeHtml cs"
  by (simp add: escapeHtml_def escapeChar_def replaceAll_Cons replaceAll_append replaceAll_Nil)

text \<open>
  Claim C6. For every string, the five chained replacements of \<open>escapeHtml\<close> give the
  same text as one pass that maps each character on its own: \<open>&\<close>, \<open><\<close>, \<open>>\<close>, the
  double quote and the single quote become their entities, every occurrence, each
  character of the input exactly once (an ampersand that an entity brings in is not
  escaped again), and every other character stays as it is. Being a function of its
  argument, the result is determined by the input.
\<close>

theorem escapeHtml_each_character_once: "escapeHtml x = escapeHtml_spec x"
  by (induction x) (simp_all add: escapeHtml_spec_def escapeHtml_Nil escapeHtml_Cons)

subsection \<open>The snippet\<close>

text \<open>
  Claim C5. A normalized text of at most 500 characters is its own snippet, with no
  marker; of a longer one the snippet is the first 500 characters and then the marker
  \<open>...\<close>, a line feed, \<open>[Message Truncated]\<close>.
\<close>

theorem snippet_exact:
  "(length t \<le> 500 \<longrightarrow> snippetOf t = t) \<and>
   (500 < length t \<longrightarrow> snippetOf t = take 500 t @ ''...'' @ [CHR 0x0A] @ ''[Message Truncated]'')"
  by (simp add: snippetOf_def snippetLength_def substring0_def truncationMarker_def)

theorem snippet_exact_witness:
  "snippetOf ''Hello world'' = ''Hello world'' \<and>
   snippetOf (replicate 501 (CHR ''a'')) = replicate 500 (CHR ''a'') @ ''...'' @ [CHR 0x0A] @ ''[Message Truncated]''"
  using snippet_exact [of "''Hello world''"] snippet_exact [of "replicate 501 (CHR ''a'')"]
  by simp

section \<open>The routing token\<close>

lemma toLowerCaseChar_low: "(of_char (toLowerCaseChar c) :: nat) < 97 \<Longrightarrow> toLowerCaseChar c = c"
  by (auto simp add: toLowerCaseChar_def Let_def split: if_splits)

lemma toLowerCaseChar_fix: "(of_char x :: nat) < 65 \<Longrightarrow> toLowerCaseChar c = x \<longleftrightarrow> c = x"
proof
  assume a: "(of_char x :: nat) < 65" and b: "toLowerCaseChar c = x"
  then have "(of_char (toLowerCaseChar c) :: nat) < 97" by simp
  then show "c = x" using b toLowerCaseChar_low by metis
next
  assume a: "(of_char x :: nat) < 65" and b: "c = x"
  then show "toLowerCaseChar c = x" by (simp add: toLowerCaseChar_def Let_def)
qed

lemma toLowerCaseChar_plus: "toLowerCaseChar c = CHR ''+'' \<longleftrightarrow> c = CHR ''+''"
  by (rule toLowerCaseChar_fix) simp

lemma toLowerCaseChar_at: "toLowerCaseChar c = CHR ''@'' \<longleftrightarrow> c = CHR ''@''"
  by (rule toLowerCaseChar_fix) simp

lemma toLowerCaseChar_lt: "isLineTerminator (toLowerCaseChar c) \<longleftrightarrow> isLineTerminator c"
  unfolding isLineTerminator_def
  using toLowerCaseChar_fix [of "CHR 0x0A" c] toLowerCaseChar_fix [of "CHR 0x0D" c] by simp

lemma toLowerCase_notin:
  "(of_char x :: nat) < 65 \<Longrightarrow> x \<notin> set s \<Longrightarrow> x \<notin> set (toLowerCase s)"
proof
  assume low: "(of_char x :: nat) < 65" and out: "x \<notin> set s" and "x \<in> set (toLowerCase s)"
  then obtain y where y: "y \<in> set s" and "toLowerCaseChar y = x"
    by (auto simp add: toLowerCase_def)
  then have "y = x" using low toLowerCaseChar_fix by blast
  then show False using y out by simp
qed

lemma toLowerCase_no_lt:
  "\<forall>c\<in>set s. \<not> isLineTerminator c \<Longrightarrow> \<forall>c\<in>set (toLowerCase s). \<not> isLineTerminator c"
  by (simp add: toLowerCase_def toLowerCaseChar_lt)

lemma dotStarAt_no_at: "CHR ''@'' \<notin> set r \<Longrightarrow> dotStarAt r = None"
  by (induction r) auto

lemma dotStarAt_has_at: "dotStarAt s = Some g \<Longrightarrow> \<exists>r. s = g @ CHR ''@'' # r"
proof (induction s arbitrary: g)
  case Nil
  then show ?case by simp
next
  case (Cons c cs)
  then show ?case
    by (auto split: if_splits option.splits)
qed

lemma dotStarAt_last: 
  "\<forall>c\<in>set t. \<not> isLineTerminator c \<Longrightarrow> CHR ''@'' \<notin> set r \<Longrightarrow> dotStarAt (t @ CHR ''@'' # r) = Some t"
  by (induction t) (auto simp add: dotStarAt_no_at isLineTerminator_def)

lemma dotPlusAt_last:
  "t \<noteq> [] \<Longrightarrow> \<forall>c\<in>set t. \<not> isLineTerminator c \<Longrightarrow> CHR ''@'' \<notin> set r
   \<Longrightarrow> dotPlusAt (t @ CHR ''@'' # r) = Some t"
  by (cases t) (auto simp add: dotPlusAt_def dotStarAt_last)

lemma dotPlusAt_has_at: "dotPlusAt s = Some g \<Longrightarrow> g \<noteq> [] \<and> (\<exists>r. s = g @ CHR ''@'' # r)"
  by (cases s) (auto simp add: dotPlusAt_def split: if_splits option.splits dest: dotStarAt_has_at)

lemma matchSubAddress_skip: "CHR ''+'' \<notin> set p \<Longrightarrow> matchSubAddress (p @ s) = matchSubAddress s"
  by (induction p) auto

lemma matchSubAddress_segment:
  "matchSubAddress s = Some g \<Longrightarrow> g \<noteq> [] \<and> (\<exists>p r. s = p @ CHR ''+'' # g @ CHR ''@'' # r)"
proof (induction s)
  case Nil
  then show ?case by simp
next
  case (Cons c cs)
  show ?case
  proof (cases "c = CHR ''+'' \<and> dotPlusAt cs \<noteq> None")
    case True
    then have "dotPlusAt cs = Some g" using Cons.prems by auto
    then obtain r where "g \<noteq> []" "cs = g @ CHR ''@'' # r" using dotPlusAt_has_at by blast
    then have "c # cs = [] @ CHR ''+'' # g @ CHR ''@'' # r" using True by simp
    then show ?thesis using \<open>g \<noteq> []\<close> by blast
  next
    case False
    then have "matchSubAddress cs = Some g" using Cons.prems by (auto split: if_splits option.splits)
    then obtain p r where "g \<noteq> []" "cs = p @ CHR ''+'' # g @ CHR ''@'' # r" using Cons.IH by blast
    then have "c # cs = (c # p) @ CHR ''+'' # g @ CHR ''@'' # r" by simp
    then show ?thesis using \<open>g \<noteq> []\<close> by blast
  qed
qed

lemma toLowerCase_append: "toLowerCase (a @ b) = toLowerCase a @ toLowerCase b"
  by (simp add: toLowerCase_def)

lemma toLowerCase_segment:
  assumes "toLowerCase a = p @ CHR ''+'' # g @ CHR ''@'' # r"
  shows "\<exists>p' g' r'. a = p' @ CHR ''+'' # g' @ CHR ''@'' # r'"
proof -
  from assms obtain p' s1 where a1: "a = p' @ s1" and "map toLowerCaseChar s1 = CHR ''+'' # g @ CHR ''@'' # r"
    unfolding toLowerCase_def by (auto simp add: map_eq_append_conv)
  then obtain x s2 where a2: "s1 = x # s2" and x: "toLowerCaseChar x = CHR ''+''"
      and "map toLowerCaseChar s2 = g @ CHR ''@'' # r"
    by (auto simp add: map_eq_Cons_conv)
  then obtain g' s3 where a3: "s2 = g' @ s3" and "map toLowerCaseChar s3 = CHR ''@'' # r"
    by (auto simp add: map_eq_append_conv)
  then obtain y r' where a4: "s3 = y # r'" and y: "toLowerCaseChar y = CHR ''@''"
    by (auto simp add: map_eq_Cons_conv)
  have "a = p' @ CHR ''+'' # g' @ CHR ''@'' # r'"
    using a1 a2 a3 a4 x y by (simp add: toLowerCaseChar_plus toLowerCaseChar_at)
  then show ?thesis by blast
qed

text \<open>
  Claim C1, as the code has it. The resolver works on the lower-cased address. For an
  address \<open>p+T@r\<close> with no \<open>+\<close> in \<open>p\<close>, a non-empty \<open>T\<close> without \<open>@\<close> and without a line
  break, and no \<open>@\<close> in \<open>r\<close>, the token is \<open>T\<close> in lower case (a \<open>+\<close> inside \<open>T\<close> stays).
  An address with no segment \<open>+...@\<close> at all gives no route.
\<close>

theorem resolver_token:
  "(a = p @ ''+'' @ T @ ''@'' @ r \<and> CHR ''+'' \<notin> set p \<and> T \<noteq> [] \<and> CHR ''@'' \<notin> set T
      \<and> (\<forall>c\<in>set T. \<not> isLineTerminator c) \<and> CHR ''@'' \<notin> set r
    \<longrightarrow> chatIdOf a = Some (toLowerCase T))
   \<and> ((\<nexists>p' g r'. a = p' @ ''+'' @ g @ ''@'' @ r') \<longrightarrow> chatIdOf a = None)"
proof (intro conjI impI)
  assume h: "a = p @ ''+'' @ T @ ''@'' @ r \<and> CHR ''+'' \<notin> set p \<and> T \<noteq> [] \<and> CHR ''@'' \<notin> set T
      \<and> (\<forall>c\<in>set T. \<not> isLineTerminator c) \<and> CHR ''@'' \<notin> set r"
  have low: "toLowerCase a = toLowerCase p @ CHR ''+'' # toLowerCase T @ CHR ''@'' # toLowerCase r"
    using h by (simp add: toLowerCase_def toLowerCaseChar_def)
  have p: "CHR ''+'' \<notin> set (toLowerCase p)"
    using h by (simp add: toLowerCase_notin)
  have t1: "toLowerCase T \<noteq> []" using h by (simp add: toLowerCase_def)
  have t2: "\<forall>c\<in>set (toLowerCase T). \<not> isLineTerminator c"
    using h toLowerCase_no_lt by blast
  have r: "CHR ''@'' \<notin> set (toLowerCase r)"
    using h by (simp add: toLowerCase_notin)
  have "matchSubAddress (toLowerCase a) = matchSubAddress (CHR ''+'' # toLowerCase T @ CHR ''@'' # toLowerCase r)"
    unfolding low using p by (rule matchSubAddress_skip)
  also have "\<dots> = Some (toLowerCase T)"
    using dotPlusAt_last [OF t1 t2 r] by simp
  finally show "chatIdOf a = Some (toLowerCase T)" by (simp add: chatIdOf_def)
next
  assume h: "\<nexists>p' g r'. a = p' @ ''+'' @ g @ ''@'' @ r'"
  show "chatIdOf a = None"
  proof (cases "chatIdOf a")
    case None
    then show ?thesis .
  next
    case (Some g)
    then obtain p' r' where "toLowerCase a = p' @ CHR ''+'' # g @ CHR ''@'' # r'"
      unfolding chatIdOf_def using matchSubAddress_segment by blast
    then have "\<exists>p' g' r'. a = p' @ CHR ''+'' # g' @ CHR ''@'' # r'" by (rule toLowerCase_segment)
    then show ?thesis using h by simp
  qed
qed

theorem resolver_token_witness:
  "chatIdOf ''tempmail+1+2@example.com'' = Some ''1+2'' \<and> chatIdOf ''tempmail@example.com'' = None"
proof -
  have nseg: "\<nexists>p' g r'. ''tempmail@example.com'' = p' @ ''+'' @ g @ ''@'' @ r'"
  proof
    assume "\<exists>p' g r'. ''tempmail@example.com'' = p' @ ''+'' @ g @ ''@'' @ r'"
    then obtain p' g r' where e: "''tempmail@example.com'' = p' @ ''+'' @ g @ ''@'' @ r'" by blast
    have "CHR ''+'' \<in> set (p' @ ''+'' @ g @ ''@'' @ r')" by simp
    then have "CHR ''+'' \<in> set ''tempmail@example.com''" using e by simp
    then show False by simp
  qed
  have low: "toLowerCase ''1+2'' = ''1+2''" by code_simp
  have "chatIdOf ''tempmail+1+2@example.com'' = Some (toLowerCase ''1+2'')"
    using resolver_token [of "''tempmail+1+2@example.com''" "''tempmail''" "''1+2''" "''example.com''"]
    by (simp add: isLineTerminator_def)
  moreover have "chatIdOf ''tempmail@example.com'' = None"
    using resolver_token [of "''tempmail@example.com''"] nseg by blast
  ultimately show ?thesis using low by simp
qed

text \<open>
  The token is not the literal text of the address: capitals come back in lower case, and
  with a second \<open>@\<close> the token runs up to the last one.
\<close>

theorem resolver_token_counterexample:
  "chatIdOf ''tempmail+AbC@example.com'' = Some ''abc'' \<and>
   chatIdOf ''tempmail+AbC@example.com'' \<noteq> Some ''AbC'' \<and>
   chatIdOf ''tempmail+12@a@example.com'' = Some ''12@a'' \<and>
   chatIdOf ''tempmail+12@a@example.com'' \<noteq> Some ''12''"
  by code_simp

section \<open>Traces of the dispatcher\<close>

lemma requestsOf_append: "requestsOf (xs @ ys) = requestsOf xs @ requestsOf ys"
  by (induction xs rule: requestsOf.induct) simp_all

lemma sendTelegramMessage_requests:
  "requestsOf (snd (sendTelegramMessage w c t tok h)) = requestsOf h @ [sendMessageRequest c t tok]"
  by (simp add: sendTelegramMessage_def Let_def requestsOf_append split: fetchResult.splits)

lemma sendTelegramMessage_answered:
  "\<forall>h' r err. fetch w h' r \<noteq> Rejected err \<Longrightarrow> fst (sendTelegramMessage w c t tok h) = Inr ()"
  by (simp add: sendTelegramMessage_def Let_def split: fetchResult.splits)

lemma showNat_413: "showNat 413 = ''413''"
  by code_simp

lemma sendTelegramDocument_failed:
  "fetch w h (sendDocumentRequest c a tok) = Response st b \<Longrightarrow> \<not> ok st \<Longrightarrow>
   sendTelegramDocument w c a tok h =
     (let h2 = h @ [Fetch (sendDocumentRequest c a tok),
                    ConsoleError [''Telegram API Error (sendDocument): '' @ showNat st, b]]
      in if st = 413 then sendTelegramMessage w c (oversizeNotice a) tok h2 else (Inr (), h2))"
  by (simp add: sendTelegramDocument_def Let_def)

lemma contains_self: "contains (p @ y) p"
proof (cases "p @ y")
  case Nil
  then show ?thesis by simp
next
  case (Cons c cs)
  then have "contains (p @ y) p = (take (length p) (p @ y) = p \<or> contains cs p)"
    by simp
  then show ?thesis by simp
qed

lemma contains_middle: "contains (x @ p @ y) p"
  by (induction x) (simp_all add: contains_self)

lemma oversizeNotice_names_file: "contains (oversizeNotice a) (escapeHtml (fileNameOf a))"
proof -
  have "oversizeNotice a =
          (glyph ''U+26A0'' @ glyph ''U+FE0F'' @ '' <b>Failed to send attachment.</b>'' @ nl @ ''File <i>'')
          @ escapeHtml (fileNameOf a)
          @ (''</i> exceeds Telegram'' @ [CHR 0x27] @ ''s 50MB Bot API limit.'')"
    by (simp add: oversizeNotice_def)
  then show ?thesis using contains_middle by metis
qed

lemma textOf_sendMessageRequest: "textOf (sendMessageRequest c t tok) = t"
  by (simp add: textOf_def bodyField_def sendMessageRequest_def)

lemma callbackDataOf_sendMessageRequest:
  "callbackDataOf (sendMessageRequest c t tok) = [Some (JStr ''dismiss'')]"
  by (simp add: callbackDataOf_def buttonsOf_def bodyField_def sendMessageRequest_def
        dismissKeyboard_def)

lemma hasDismissKeyboard_sendMessageRequest: "hasDismissKeyboard (sendMessageRequest c t tok)"
  by (simp add: hasDismissKeyboard_def callbackDataOf_sendMessageRequest)

lemma isSendMessage_sendMessageRequest: "isSendMessage tok (sendMessageRequest c t tok)"
  by (simp add: isSendMessage_def sendMessageRequest_def)

lemma isSendMessage_sendDocumentRequest: "\<not> isSendMessage tok (sendDocumentRequest c a tok)"
  by (simp add: isSendMessage_def sendDocumentRequest_def apiUrl_def)

lemma isSendDocument_sendDocumentRequest: "isSendDocument tok (sendDocumentRequest c a tok)"
  by (simp add: isSendDocument_def sendDocumentRequest_def)

lemma isSendDocument_sendMessageRequest: "\<not> isSendDocument tok (sendMessageRequest c t tok)"
  by (simp add: isSendDocument_def sendMessageRequest_def apiUrl_def)

text \<open>
  Claim C3. When the file transfer of an attachment is answered with a status that is no
  success, the calls of \<open>sendTelegramDocument\<close> are the transfer itself and, exactly when
  the status is 413, one more call, a text send whose text contains the escaped file name
  of the attachment (the declared name when there is one, the default name otherwise).
  With any other failing status the transfer is the only call.
\<close>

theorem oversize_fallback:
  "fetch w h (sendDocumentRequest chatId a token) = Response st b \<Longrightarrow> \<not> ok st \<Longrightarrow>
   requestsOf (snd (sendTelegramDocument w chatId a token h))
     = requestsOf h @ sendDocumentRequest chatId a token
         # (if st = 413 then [sendMessageRequest chatId (oversizeNotice a) token] else [])
   \<and> \<not> isSendMessage token (sendDocumentRequest chatId a token)
   \<and> isSendMessage token (sendMessageRequest chatId (oversizeNotice a) token)
   \<and> contains (textOf (sendMessageRequest chatId (oversizeNotice a) token)) (escapeHtml (fileNameOf a))
   \<and> (\<forall>n. filename a = Some n \<and> n \<noteq> [] \<longrightarrow> fileNameOf a = n)"
proof -
  assume f: "fetch w h (sendDocumentRequest chatId a token) = Response st b" and n: "\<not> ok st"
  have calls: "requestsOf (snd (sendTelegramDocument w chatId a token h))
     = requestsOf h @ sendDocumentRequest chatId a token
         # (if st = 413 then [sendMessageRequest chatId (oversizeNotice a) token] else [])"
    by (simp add: sendTelegramDocument_failed [OF f n] Let_def sendTelegramMessage_requests
          requestsOf_append)
  have name: "\<forall>n. filename a = Some n \<and> n \<noteq> [] \<longrightarrow> fileNameOf a = n"
    by (simp add: fileNameOf_def orElse_def)
  show ?thesis
    using calls name
    by (simp add: isSendMessage_sendDocumentRequest isSendMessage_sendMessageRequest
          textOf_sendMessageRequest oversizeNotice_names_file)
qed

theorem oversize_fallback_witness:
  "requestsOf (snd (sendTelegramDocument oversizeWorld ''42'' notesTxt ''T'' []))
     = [sendDocumentRequest ''42'' notesTxt ''T'',
        sendMessageRequest ''42'' (oversizeNotice notesTxt) ''T'']
   \<and> contains (oversizeNotice notesTxt) ''a&lt;b.txt''
   \<and> requestsOf (snd (sendTelegramDocument forbiddenWorld ''42'' notesTxt ''T'' []))
     = [sendDocumentRequest ''42'' notesTxt ''T'']"
proof -
  have d: "isSendDocument ''T'' (sendDocumentRequest ''42'' notesTxt ''T'')"
    by (rule isSendDocument_sendDocumentRequest)
  have a: "fetch oversizeWorld [] (sendDocumentRequest ''42'' notesTxt ''T'') = Response 413 ''too large''"
    using d by (simp add: oversizeWorld_def)
  have b: "fetch forbiddenWorld [] (sendDocumentRequest ''42'' notesTxt ''T'') = Response 403 ''forbidden''"
    using d by (simp add: forbiddenWorld_def)
  have n: "escapeHtml (fileNameOf notesTxt) = ''a&lt;b.txt''"
    by code_simp
  have "\<not> ok 413" and "\<not> ok 403" by (simp_all add: ok_def)
  then show ?thesis
    using oversize_fallback [OF a] oversize_fallback [OF b] n
    by (simp add: textOf_sendMessageRequest)
qed

text \<open>
  Claim C10. On a 413 the rest of \<open>sendTelegramDocument\<close> is a call of
  \<open>sendTelegramMessage\<close>, the primitive of the email notification: the notice is the last
  call made, its \<open>reply_markup\<close> is an inline keyboard of one button, whose press sends the
  callback data \<open>dismiss\<close>, and that \<open>reply_markup\<close> is the one of a notification.
\<close>

theorem oversize_notice_has_dismiss:
  "fetch w h (sendDocumentRequest chatId a token) = Response 413 b \<Longrightarrow>
   sendTelegramDocument w chatId a token h
     = sendTelegramMessage w chatId (oversizeNotice a) token
         (h @ [Fetch (sendDocumentRequest chatId a token),
               ConsoleError [''Telegram API Error (sendDocument): 413'', b]])
   \<and> last (requestsOf (snd (sendTelegramDocument w chatId a token h)))
       = sendMessageRequest chatId (oversizeNotice a) token
   \<and> hasDismissKeyboard (sendMessageRequest chatId (oversizeNotice a) token)
   \<and> callbackDataOf (sendMessageRequest chatId (oversizeNotice a) token) = [Some (JStr ''dismiss'')]
   \<and> bodyField ''reply_markup'' (sendMessageRequest chatId (oversizeNotice a) token)
       = Some (JObj [(''inline_keyboard'',
                      JArr [JArr [JObj [(''text'', JStr (glyph ''U+1F5D1'' @ glyph ''U+FE0F'' @ '' Dismiss Email'')),
                                        (''callback_data'', JStr ''dismiss'')]]])])
   \<and> bodyField ''reply_markup'' (sendMessageRequest chatId (oversizeNotice a) token)
       = bodyField ''reply_markup'' (sendMessageRequest chatId (messagePayloadOf email toAddress aiSummary snippet) token)"
proof -
  assume f: "fetch w h (sendDocumentRequest chatId a token) = Response 413 b"
  have n: "\<not> ok 413" by (simp add: ok_def)
  have e: "sendTelegramDocument w chatId a token h
     = sendTelegramMessage w chatId (oversizeNotice a) token
         (h @ [Fetch (sendDocumentRequest chatId a token),
               ConsoleError [''Telegram API Error (sendDocument): 413'', b]])"
    using sendTelegramDocument_failed [OF f n] by (simp add: showNat_413)
  have markup: "bodyField ''reply_markup'' (sendMessageRequest chatId (oversizeNotice a) token)
       = Some (JObj [(''inline_keyboard'',
                      JArr [JArr [JObj [(''text'', JStr (glyph ''U+1F5D1'' @ glyph ''U+FE0F'' @ '' Dismiss Email'')),
                                        (''callback_data'', JStr ''dismiss'')]]])])"
    by (simp add: bodyField_def sendMessageRequest_def dismissKeyboard_def)
  have same: "bodyField ''reply_markup'' (sendMessageRequest chatId (oversizeNotice a) token)
       = bodyField ''reply_markup'' (sendMessageRequest chatId (messagePayloadOf email toAddress aiSummary snippet) token)"
    by (simp add: bodyField_def sendMessageRequest_def)
  have l: "last (requestsOf (snd (sendTelegramDocument w chatId a token h)))
       = sendMessageRequest chatId (oversizeNotice a) token"
    unfolding e by (simp add: sendTelegramMessage_requests)
  show ?thesis
    using e l markup same hasDismissKeyboard_sendMessageRequest callbackDataOf_sendMessageRequest
    by blast
qed

theorem oversize_notice_has_dismiss_witness:
  "last (requestsOf (snd (sendTelegramDocument oversizeWorld ''42'' reportPdf ''T'' [])))
       = sendMessageRequest ''42'' (oversizeNotice reportPdf) ''T''
   \<and> hasDismissKeyboard (sendMessageRequest ''42'' (oversizeNotice reportPdf) ''T'')
   \<and> callbackDataOf (sendMessageRequest ''42'' (oversizeNotice reportPdf) ''T'')
       = [Some (JStr ''dismiss'')]"
proof -
  have d: "isSendDocument ''T'' (sendDocumentRequest ''42'' reportPdf ''T'')"
    by (rule isSendDocument_sendDocumentRequest)
  have a: "fetch oversizeWorld [] (sendDocumentRequest ''42'' reportPdf ''T'') = Response 413 ''too large''"
    using d by (simp add: oversizeWorld_def)
  show ?thesis
    using oversize_notice_has_dismiss
            [OF a, where email = sampleEmail and toAddress = "[]" and aiSummary = "[]"
               and snippet = "[]"]
    by blast
qed

lemma sendTelegramMessage_ai:
  "filter isAiRun (snd (sendTelegramMessage w c t tok h)) = filter isAiRun h"
  by (simp add: sendTelegramMessage_def Let_def split: fetchResult.splits)

lemma sendTelegramDocument_ai:
  "filter isAiRun (snd (sendTelegramDocument w c a tok h)) = filter isAiRun h"
  by (simp add: sendTelegramDocument_def Let_def sendTelegramMessage_ai split: fetchResult.splits)

lemma sendAttachments_ai:
  "filter isAiRun (snd (sendAttachments w c tok as h)) = filter isAiRun h"
proof (induction as arbitrary: h)
  case Nil
  then show ?case by simp
next
  case (Cons a as)
  obtain res h' where r: "sendTelegramDocument w c a tok h = (res, h')"
    by (cases "sendTelegramDocument w c a tok h")
  then have h': "filter isAiRun h' = filter isAiRun h"
    using sendTelegramDocument_ai [of w c a tok h] by simp
  show ?case
  proof (cases res)
    case (Inl err)
    then show ?thesis using r h' by simp
  next
    case (Inr u)
    then show ?thesis using r h' Cons.IH [of h'] by simp
  qed
qed

lemma sendTelegramDocument_extends:
  "\<exists>more. requestsOf (snd (sendTelegramDocument w c a tok h))
            = requestsOf h @ sendDocumentRequest c a tok # more"
  by (simp add: sendTelegramDocument_def Let_def sendTelegramMessage_requests requestsOf_append
        split: fetchResult.splits)

lemma sendAttachments_extends:
  "\<exists>more. requestsOf (snd (sendAttachments w c tok as h)) = requestsOf h @ more"
proof (induction as arbitrary: h)
  case Nil
  then show ?case by simp
next
  case (Cons a as)
  obtain res h' where r: "sendTelegramDocument w c a tok h = (res, h')"
    by (cases "sendTelegramDocument w c a tok h")
  then obtain m1 where h': "requestsOf h' = requestsOf h @ sendDocumentRequest c a tok # m1"
    using sendTelegramDocument_extends [of w c a tok h] by auto
  show ?case
  proof (cases res)
    case (Inl err)
    then show ?thesis using r h' by simp
  next
    case (Inr u)
    obtain m2 where "requestsOf (snd (sendAttachments w c tok as h')) = requestsOf h' @ m2"
      using Cons.IH [of h'] by blast
    then show ?thesis using Inr r h' by simp
  qed
qed

lemma summaryStep_requests: "requestsOf (snd (summaryStep w t h)) = requestsOf h"
  by (simp add: summaryStep_def generateEmailSummary_def Let_def requestsOf_append
        split: aiResult.splits option.splits)

lemma onEmail_routed:
  assumes "chatIdOf (emailTo email) = Some c" and "TELEGRAM_BOT_TOKEN e \<noteq> []"
  shows "onEmail e w email h =
     (case sendTelegramMessage w c
             (messagePayloadOf email (toLowerCase (emailTo email))
                (fst (summaryStep w (cleanTextBodyOf email) h)) (snippetOf (cleanTextBodyOf email)))
             (TELEGRAM_BOT_TOKEN e) (snd (summaryStep w (cleanTextBodyOf email) h)) of
        (Inl err, h2) \<Rightarrow> (Inl err, h2)
      | (Inr u, h2) \<Rightarrow>
          if 0 < length (parsedAttachments (emailParsed email))
          then sendAttachments w c (TELEGRAM_BOT_TOKEN e) (parsedAttachments (emailParsed email)) h2
          else (Inr (), h2))"
  using assms
  by (simp add: onEmail_def chatIdOf_def Let_def split_beta cleanTextBodyOf_def)

lemma onEmail_text_send_first:
  assumes "chatIdOf (emailTo email) = Some c" and "TELEGRAM_BOT_TOKEN e \<noteq> []"
  shows "\<exists>more. requestsOf (snd (onEmail e w email h))
           = requestsOf h @ notificationRequest e email c (fst (summaryStep w (cleanTextBodyOf email) h)) # more"
proof -
  let ?s = "summaryStep w (cleanTextBodyOf email) h"
  let ?m = "sendTelegramMessage w c
             (messagePayloadOf email (toLowerCase (emailTo email)) (fst ?s) (snippetOf (cleanTextBodyOf email)))
             (TELEGRAM_BOT_TOKEN e) (snd ?s)"
  obtain res h2 where m: "?m = (res, h2)" by (cases ?m)
  have h2: "requestsOf h2 = requestsOf h @ [notificationRequest e email c (fst ?s)]"
  proof -
    have "h2 = snd ?m" using m by simp
    then show ?thesis
      by (simp add: sendTelegramMessage_requests summaryStep_requests notificationRequest_def)
  qed
  obtain m2 where m2: "requestsOf (snd (sendAttachments w c (TELEGRAM_BOT_TOKEN e)
                          (parsedAttachments (emailParsed email)) h2)) = requestsOf h2 @ m2"
    using sendAttachments_extends by blast
  show ?thesis
    unfolding onEmail_routed [OF assms] m
    using h2 m2 by (cases res) auto
qed

lemma onEmail_ai:
  assumes "chatIdOf (emailTo email) = Some c" and "TELEGRAM_BOT_TOKEN e \<noteq> []"
  shows "filter isAiRun (snd (onEmail e w email h))
           = filter isAiRun (snd (summaryStep w (cleanTextBodyOf email) h))"
proof -
  let ?s = "summaryStep w (cleanTextBodyOf email) h"
  let ?m = "sendTelegramMessage w c
             (messagePayloadOf email (toLowerCase (emailTo email)) (fst ?s) (snippetOf (cleanTextBodyOf email)))
             (TELEGRAM_BOT_TOKEN e) (snd ?s)"
  obtain res h2 where m: "?m = (res, h2)" by (cases ?m)
  have h2: "filter isAiRun h2 = filter isAiRun (snd ?s)"
  proof -
    have "h2 = snd ?m" using m by simp
    then show ?thesis by (simp add: sendTelegramMessage_ai)
  qed
  show ?thesis
    unfolding onEmail_routed [OF assms] m
    using h2 by (cases res) (simp_all add: sendAttachments_ai)
qed

section \<open>The pipeline\<close>

text \<open>
  Claim C7. An email whose recipient address yields no token is dropped: \<open>onEmail\<close>
  returns normally, and all it adds to the trace is one warning in the log, so no HTTP
  call and no AI invocation is made.
\<close>

theorem no_route_drops:
  "chatIdOf (emailTo email) = None \<Longrightarrow>
   onEmail e w email h
     = (Inr (), h @ [ConsoleWarn [''Dropped email: No chat ID found in recipient address'',
                                  toLowerCase (emailTo email)]])
   \<and> filter isOutbound (snd (onEmail e w email h)) = filter isOutbound h
   \<and> requestsOf (snd (onEmail e w email h)) = requestsOf h"
  by (simp add: onEmail_def chatIdOf_def Let_def requestsOf_append)

theorem no_route_drops_witness:
  "onEmail sampleEnv quietWorld unroutedEmail []
     = (Inr (), [ConsoleWarn [''Dropped email: No chat ID found in recipient address'',
                              ''tempmail@example.com'']])"
proof -
  have a: "chatIdOf (emailTo unroutedEmail) = None" by code_simp
  have b: "toLowerCase (emailTo unroutedEmail) = ''tempmail@example.com''" by code_simp
  show ?thesis
    using no_route_drops [OF a, of sampleEnv quietWorld "[]"] b by simp
qed

text \<open>
  Claim C9. The summarizer is skipped for every normalized text of at most 20 characters,
  exactly 20 among them: the summary is the skip fallback and the trace is unchanged.
  With more than 20 characters the next event is the AI invocation. In \<open>onEmail\<close>, for a
  routed email whose normalized body has at most 20 characters, no AI invocation is made
  and the notification sent carries the skip fallback.
\<close>

theorem summary_skipped_up_to_20:
  "(length t \<le> 20 \<longrightarrow> summaryStep w t h = (''No content available to summarize.'', h))
   \<and> (20 < length t \<longrightarrow>
        (\<exists>more. snd (summaryStep w t h) = h @ AiRun aiModel (aiMessages (take 2000 t)) # more))
   \<and> (chatIdOf (emailTo email) = Some c \<and> TELEGRAM_BOT_TOKEN e \<noteq> []
        \<and> length (cleanTextBodyOf email) \<le> 20 \<longrightarrow>
        filter isAiRun (snd (onEmail e w email h)) = filter isAiRun h
        \<and> (\<exists>more. requestsOf (snd (onEmail e w email h))
              = requestsOf h
                @ notificationRequest e email c ''No content available to summarize.'' # more))"
proof (intro conjI impI)
  assume "length t \<le> 20"
  then show "summaryStep w t h = (''No content available to summarize.'', h)"
    by (simp add: summaryStep_def skipSummary_def)
next
  assume "20 < length t"
  then show "\<exists>more. snd (summaryStep w t h) = h @ AiRun aiModel (aiMessages (take 2000 t)) # more"
    by (simp add: summaryStep_def generateEmailSummary_def Let_def substring0_def
          split: aiResult.splits option.splits)
next
  assume a: "chatIdOf (emailTo email) = Some c \<and> TELEGRAM_BOT_TOKEN e \<noteq> []
        \<and> length (cleanTextBodyOf email) \<le> 20"
  then have s: "summaryStep w (cleanTextBodyOf email) h = (''No content available to summarize.'', h)"
    by (simp add: summaryStep_def skipSummary_def)
  show "filter isAiRun (snd (onEmail e w email h)) = filter isAiRun h"
    using a onEmail_ai [of email c e w h] s by simp
next
  assume a: "chatIdOf (emailTo email) = Some c \<and> TELEGRAM_BOT_TOKEN e \<noteq> []
        \<and> length (cleanTextBodyOf email) \<le> 20"
  then have s: "summaryStep w (cleanTextBodyOf email) h = (''No content available to summarize.'', h)"
    by (simp add: summaryStep_def skipSummary_def)
  show "\<exists>more. requestsOf (snd (onEmail e w email h))
              = requestsOf h @ notificationRequest e email c ''No content available to summarize.'' # more"
    using a onEmail_text_send_first [of email c e w h] s by simp
qed

theorem summary_skipped_up_to_20_witness:
  "length ''Hello, dear world!!!'' = 20
   \<and> summaryStep quietWorld ''Hello, dear world!!!'' [] = (''No content available to summarize.'', [])
   \<and> (\<exists>more. snd (summaryStep quietWorld ''Hello, dear world!!!!'' [])
         = AiRun aiModel (aiMessages ''Hello, dear world!!!!'') # more)
   \<and> filter isAiRun (snd (onEmail sampleEnv quietWorld helloEmail [])) = []
   \<and> (\<exists>more. requestsOf (snd (onEmail sampleEnv quietWorld helloEmail []))
         = notificationRequest sampleEnv helloEmail ''42'' ''No content available to summarize.''
           # more)"
proof -
  have route: "chatIdOf (emailTo helloEmail) = Some ''42''" by code_simp
  have token: "TELEGRAM_BOT_TOKEN sampleEnv \<noteq> []" by (simp add: sampleEnv_def)
  have short: "length (cleanTextBodyOf helloEmail) \<le> 20" by code_simp
  have "filter isAiRun (snd (onEmail sampleEnv quietWorld helloEmail [])) = []
     \<and> (\<exists>more. requestsOf (snd (onEmail sampleEnv quietWorld helloEmail []))
         = notificationRequest sampleEnv helloEmail ''42'' ''No content available to summarize.''
           # more)"
    using summary_skipped_up_to_20
            [of "''Hello, dear world!!!''" quietWorld "[]" helloEmail "''42''" sampleEnv]
          route token short
    by simp
  moreover have "\<exists>more. snd (summaryStep quietWorld ''Hello, dear world!!!!'' [])
         = AiRun aiModel (aiMessages ''Hello, dear world!!!!'') # more"
    using summary_skipped_up_to_20 [of "''Hello, dear world!!!!''" quietWorld "[]"]
    by simp
  moreover have "summaryStep quietWorld ''Hello, dear world!!!'' []
                   = (''No content available to summarize.'', [])"
    using summary_skipped_up_to_20 [of "''Hello, dear world!!!''" quietWorld "[]"]
    by simp
  ultimately show ?thesis by simp
qed

section \<open>The summarizer\<close>

lemma trim_empty: "trim s = [] \<Longrightarrow> \<forall>c\<in>set s. isWhiteSpace c"
proof -
  assume "trim s = []"
  then have "dropWhile isWhiteSpace (rev (dropWhile isWhiteSpace s)) = []"
    by (simp add: trim_def)
  then have "\<forall>c\<in>set (dropWhile isWhiteSpace s). isWhiteSpace c"
    by (simp add: dropWhile_eq_Nil_conv)
  then have "dropWhile isWhiteSpace s = []"
    by (metis hd_dropWhile hd_in_set)
  then show ?thesis by (simp add: dropWhile_eq_Nil_conv)
qed

text \<open>
  Claim C4, as the code has it. The threshold is strict: up to and with 20 characters the
  result is the skip fallback and the collaborator is not invoked. With more than 20
  characters the collaborator is invoked once, on the first 2000 characters; the result
  is its trimmed output when that is non-empty, the no-result fallback when it is empty
  or absent, and the failure fallback when the collaborator throws. The type of
  \<open>generateEmailSummary\<close> has no error: no failure propagates. The summary can only be
  empty when the output was non-empty and all white space.
\<close>

theorem summary_cases:
  "(length t \<le> 20 \<longrightarrow> summaryStep w t h = (''No content available to summarize.'', h))
   \<and> (20 < length t \<longrightarrow>
        filter isAiRun (snd (summaryStep w t h))
          = filter isAiRun h @ [AiRun aiModel [(''system'', systemPrompt), (''user'', take 2000 t)]]
        \<and> (\<forall>s. aiRun w h aiModel (aiMessages (take 2000 t)) = AiReturns (Some s) \<and> s \<noteq> []
               \<longrightarrow> fst (summaryStep w t h) = trim s)
        \<and> (aiRun w h aiModel (aiMessages (take 2000 t)) = AiReturns (Some [])
             \<or> aiRun w h aiModel (aiMessages (take 2000 t)) = AiReturns None
               \<longrightarrow> fst (summaryStep w t h) = ''Summary generation yielded no result.'')
        \<and> (\<forall>err. aiRun w h aiModel (aiMessages (take 2000 t)) = AiThrows err
               \<longrightarrow> fst (summaryStep w t h) = ''Automated summary temporarily unavailable.''))
   \<and> (fst (summaryStep w t h) = [] \<longrightarrow>
        (\<exists>s. aiRun w h aiModel (aiMessages (take 2000 t)) = AiReturns (Some s) \<and> s \<noteq> []
             \<and> (\<forall>c\<in>set s. isWhiteSpace c)))"
proof (intro conjI impI)
  assume "length t \<le> 20"
  then show "summaryStep w t h = (''No content available to summarize.'', h)"
    by (simp add: summaryStep_def skipSummary_def)
next
  assume "20 < length t"
  then show "filter isAiRun (snd (summaryStep w t h))
          = filter isAiRun h @ [AiRun aiModel [(''system'', systemPrompt), (''user'', take 2000 t)]]"
    by (simp add: summaryStep_def generateEmailSummary_def Let_def substring0_def aiMessages_def
          split: aiResult.splits option.splits)
next
  assume "20 < length t"
  then show "\<forall>s. aiRun w h aiModel (aiMessages (take 2000 t)) = AiReturns (Some s) \<and> s \<noteq> []
               \<longrightarrow> fst (summaryStep w t h) = trim s"
    by (simp add: summaryStep_def generateEmailSummary_def Let_def substring0_def)
next
  assume "20 < length t"
    and "aiRun w h aiModel (aiMessages (take 2000 t)) = AiReturns (Some [])
             \<or> aiRun w h aiModel (aiMessages (take 2000 t)) = AiReturns None"
  then show "fst (summaryStep w t h) = ''Summary generation yielded no result.''"
    by (auto simp add: summaryStep_def generateEmailSummary_def Let_def substring0_def
          noResultSummary_def)
next
  assume "20 < length t"
  then show "\<forall>err. aiRun w h aiModel (aiMessages (take 2000 t)) = AiThrows err
               \<longrightarrow> fst (summaryStep w t h) = ''Automated summary temporarily unavailable.''"
    by (simp add: summaryStep_def generateEmailSummary_def Let_def substring0_def
          unavailableSummary_def)
next
  assume e: "fst (summaryStep w t h) = []"
  show "\<exists>s. aiRun w h aiModel (aiMessages (take 2000 t)) = AiReturns (Some s) \<and> s \<noteq> []
             \<and> (\<forall>c\<in>set s. isWhiteSpace c)"
  proof (cases "20 < length t")
    case False
    then show ?thesis using e by (simp add: summaryStep_def skipSummary_def)
  next
    case True
    show ?thesis
    proof (cases "aiRun w h aiModel (aiMessages (take 2000 t))")
      case (AiThrows err)
      then show ?thesis using e True
        by (simp add: summaryStep_def generateEmailSummary_def Let_def substring0_def
              unavailableSummary_def)
    next
      case (AiReturns r)
      show ?thesis
      proof (cases r)
        case None
        then show ?thesis using e True AiReturns
          by (simp add: summaryStep_def generateEmailSummary_def Let_def substring0_def
                noResultSummary_def)
      next
        case (Some s)
        show ?thesis
        proof (cases "s = []")
          case True
          then show ?thesis using e \<open>20 < length t\<close> AiReturns Some
            by (simp add: summaryStep_def generateEmailSummary_def Let_def substring0_def
                  noResultSummary_def)
        next
          case False
          then have "trim s = []" using e \<open>20 < length t\<close> AiReturns Some
            by (simp add: summaryStep_def generateEmailSummary_def Let_def substring0_def)
          then show ?thesis using False AiReturns Some trim_empty by blast
        qed
      qed
    qed
  qed
qed

theorem summary_cases_witness:
  "summaryStep quietWorld ''Hello, dear world!!!'' [] = (''No content available to summarize.'', [])
   \<and> fst (summaryStep quietWorld ''Please find the quarterly report attached.'' []) = ''A summary.''"
proof -
  have r: "aiRun quietWorld [] aiModel (aiMessages (take 2000 ''Please find the quarterly report attached.''))
            = AiReturns (Some '' A summary. '')"
    by (simp add: quietWorld_def)
  have t: "trim '' A summary. '' = ''A summary.''" by code_simp
  have "fst (summaryStep quietWorld ''Please find the quarterly report attached.'' []) = trim '' A summary. ''"
    using summary_cases [of "''Please find the quarterly report attached.''" quietWorld "[]"] r
    by simp
  then show ?thesis
    using summary_cases [of "''Hello, dear world!!!''" quietWorld "[]"] t by simp
qed

text \<open>
  A text of exactly 20 characters is at the threshold, and the collaborator is not
  invoked; an output of one blank is non-empty, and the summary is empty.
\<close>

theorem summary_cases_counterexample:
  "length ''Hello, dear world!!!'' = 20
   \<and> summaryStep quietWorld ''Hello, dear world!!!'' [] = (''No content available to summarize.'', [])
   \<and> aiRun blankAiWorld [] aiModel (aiMessages (take 2000 ''Please find the quarterly report attached.''))
       = AiReturns (Some '' '')
   \<and> fst (summaryStep blankAiWorld ''Please find the quarterly report attached.'' []) = []"
  by code_simp

section \<open>Order of the sends\<close>

lemma answeredFrom_append:
  "answeredFrom w h (a @ b) \<longleftrightarrow> answeredFrom w h a \<and> answeredFrom w (h @ a) b"
  by (induction w h a rule: answeredFrom.induct) simp_all

lemma sendTelegramMessage_run:
  "\<exists>evs. snd (sendTelegramMessage w c t tok h) = h @ evs
         \<and> (answeredFrom w h evs \<longrightarrow> fst (sendTelegramMessage w c t tok h) = Inr ())"
  by (cases "fetch w h (sendMessageRequest c t tok)")
     (simp_all add: sendTelegramMessage_def Let_def)

lemma sendTelegramDocument_run:
  "\<exists>evs. snd (sendTelegramDocument w c a tok h) = h @ evs
         \<and> (answeredFrom w h evs \<longrightarrow> fst (sendTelegramDocument w c a tok h) = Inr ())"
proof (cases "fetch w h (sendDocumentRequest c a tok)")
  case (Rejected err)
  then show ?thesis by (simp add: sendTelegramDocument_def Let_def)
next
  case (Response st b)
  show ?thesis
  proof (cases "\<not> ok st \<and> st = 413")
    case False
    then show ?thesis using Response by (auto simp add: sendTelegramDocument_def Let_def)
  next
    case True
    let ?log = "[Fetch (sendDocumentRequest c a tok),
                 ConsoleError [''Telegram API Error (sendDocument): '' @ showNat st, b]]"
    let ?m = "sendTelegramMessage w c (oversizeNotice a) tok (h @ ?log)"
    have d: "sendTelegramDocument w c a tok h = ?m"
      using Response True by (simp add: sendTelegramDocument_def Let_def ok_def)
    obtain evs where s: "snd ?m = (h @ ?log) @ evs"
        and r: "answeredFrom w (h @ ?log) evs \<longrightarrow> fst ?m = Inr ()"
      using sendTelegramMessage_run by blast
    have "snd (sendTelegramDocument w c a tok h) = h @ (?log @ evs)"
      using d s by simp
    moreover have "answeredFrom w h (?log @ evs) \<longrightarrow> fst (sendTelegramDocument w c a tok h) = Inr ()"
      using d r by (simp add: answeredFrom_append)
    ultimately show ?thesis by blast
  qed
qed

lemma sendAttachments_run:
  "\<exists>evs. snd (sendAttachments w c tok as h) = h @ evs
         \<and> (answeredFrom w h evs \<longrightarrow> fst (sendAttachments w c tok as h) = Inr ())"
proof (induction as arbitrary: h)
  case Nil
  then show ?case by simp
next
  case (Cons a as)
  obtain res h1 where d: "sendTelegramDocument w c a tok h = (res, h1)"
    by (cases "sendTelegramDocument w c a tok h")
  obtain e1 where s1: "h1 = h @ e1" and r1: "answeredFrom w h e1 \<longrightarrow> res = Inr ()"
    using sendTelegramDocument_run [of w c a tok h] d by auto
  show ?case
  proof (cases res)
    case (Inl err)
    then have "snd (sendAttachments w c tok (a # as) h) = h @ e1"
      using d s1 by simp
    moreover have "answeredFrom w h e1 \<longrightarrow> fst (sendAttachments w c tok (a # as) h) = Inr ()"
      using r1 Inl by simp
    ultimately show ?thesis by blast
  next
    case (Inr u)
    obtain e2 where s2: "snd (sendAttachments w c tok as h1) = h1 @ e2"
        and r2: "answeredFrom w h1 e2 \<longrightarrow> fst (sendAttachments w c tok as h1) = Inr ()"
      using Cons.IH [of h1] by blast
    have "snd (sendAttachments w c tok (a # as) h) = h @ (e1 @ e2)"
      using d Inr s1 s2 by simp
    moreover have "answeredFrom w h (e1 @ e2) \<longrightarrow> fst (sendAttachments w c tok (a # as) h) = Inr ()"
      using d Inr s1 r2 by (simp add: answeredFrom_append)
    ultimately show ?thesis by blast
  qed
qed

lemma summaryStep_run:
  "\<exists>evs. snd (summaryStep w t h) = h @ evs \<and> answeredFrom w h evs"
  by (simp add: summaryStep_def generateEmailSummary_def Let_def
        split: aiResult.splits option.splits)

lemma onEmail_answered:
  assumes route: "chatIdOf (emailTo email) = Some c"
      and token: "TELEGRAM_BOT_TOKEN e \<noteq> []"
      and answered: "allAnswered w h (snd (onEmail e w email h))"
  shows "fst (onEmail e w email h) = Inr ()"
proof -
  let ?tok = "TELEGRAM_BOT_TOKEN e"
  let ?as = "parsedAttachments (emailParsed email)"
  let ?s = "summaryStep w (cleanTextBodyOf email) h"
  let ?m = "sendTelegramMessage w c
             (messagePayloadOf email (toLowerCase (emailTo email)) (fst ?s) (snippetOf (cleanTextBodyOf email)))
             ?tok (snd ?s)"
  obtain es where s: "snd ?s = h @ es" and sa: "answeredFrom w h es"
    using summaryStep_run by blast
  obtain res h2 where m: "?m = (res, h2)" by (cases ?m)
  have fm: "fst ?m = res" and sm: "snd ?m = h2" using m by simp_all
  obtain em where "snd ?m = snd ?s @ em" and "answeredFrom w (snd ?s) em \<longrightarrow> fst ?m = Inr ()"
    using sendTelegramMessage_run by blast
  then have h2: "h2 = snd ?s @ em" and rm: "answeredFrom w (snd ?s) em \<longrightarrow> res = Inr ()"
    unfolding fm sm by simp_all
  let ?a = "sendAttachments w c ?tok ?as h2"
  obtain ea where h3: "snd ?a = h2 @ ea" and ra: "answeredFrom w h2 ea \<longrightarrow> fst ?a = Inr ()"
    using sendAttachments_run by blast
  show ?thesis
  proof (cases res)
    case (Inl err)
    then have "snd (onEmail e w email h) = h @ (es @ em)"
      unfolding onEmail_routed [OF route token] m using h2 s by simp
    then have "answeredFrom w (h @ es) em"
      using answered by (simp add: allAnswered_def answeredFrom_append)
    then show ?thesis using rm Inl s by simp
  next
    case (Inr u)
    show ?thesis
    proof (cases "0 < length ?as")
      case False
      then show ?thesis unfolding onEmail_routed [OF route token] m using Inr by simp
    next
      case True
      then have run: "onEmail e w email h = ?a"
        unfolding onEmail_routed [OF route token] m using Inr by simp
      then have "snd (onEmail e w email h) = h @ (es @ em @ ea)"
        using h3 h2 s by simp
      then have "answeredFrom w (h @ es @ em) ea"
        using answered by (simp add: allAnswered_def answeredFrom_append)
      then show ?thesis using ra run h2 s by simp
    qed
  qed
qed

lemma sendTelegramDocument_calls:
  "\<exists>f. requestsOf (snd (sendTelegramDocument w c a tok h))
         = requestsOf h @ attachmentCalls c tok [(a, f)]"
proof (cases "fetch w h (sendDocumentRequest c a tok)")
  case (Rejected err)
  then have "requestsOf (snd (sendTelegramDocument w c a tok h))
         = requestsOf h @ attachmentCalls c tok [(a, False)]"
    by (simp add: sendTelegramDocument_def Let_def requestsOf_append)
  then show ?thesis by blast
next
  case (Response st b)
  show ?thesis
  proof (cases "\<not> ok st \<and> st = 413")
    case True
    then have "requestsOf (snd (sendTelegramDocument w c a tok h))
         = requestsOf h @ attachmentCalls c tok [(a, True)]"
      using Response
      by (simp add: sendTelegramDocument_def Let_def sendTelegramMessage_requests requestsOf_append
            ok_def)
    then show ?thesis by blast
  next
    case False
    then have "requestsOf (snd (sendTelegramDocument w c a tok h))
         = requestsOf h @ attachmentCalls c tok [(a, False)]"
      using Response
      by (auto simp add: sendTelegramDocument_def Let_def requestsOf_append)
    then show ?thesis by blast
  qed
qed

lemma sendAttachments_calls:
  "\<exists>flags. length flags \<le> length as
         \<and> requestsOf (snd (sendAttachments w c tok as h))
             = requestsOf h @ attachmentCalls c tok (zip as flags)
         \<and> (fst (sendAttachments w c tok as h) = Inr () \<longrightarrow> length flags = length as)"
proof (induction as arbitrary: h)
  case Nil
  then show ?case by simp
next
  case (Cons a as)
  obtain res h1 where d: "sendTelegramDocument w c a tok h = (res, h1)"
    by (cases "sendTelegramDocument w c a tok h")
  obtain f where r1: "requestsOf h1 = requestsOf h @ attachmentCalls c tok [(a, f)]"
    using sendTelegramDocument_calls [of w c a tok h] d by auto
  show ?case
  proof (cases res)
    case (Inl err)
    have "length [f] \<le> length (a # as)" by simp
    moreover have "requestsOf (snd (sendAttachments w c tok (a # as) h))
             = requestsOf h @ attachmentCalls c tok (zip (a # as) [f])"
      using d Inl r1 by simp
    moreover have "fst (sendAttachments w c tok (a # as) h) \<noteq> Inr ()"
      using d Inl by simp
    ultimately show ?thesis by blast
  next
    case (Inr u)
    obtain flags where l: "length flags \<le> length as"
        and r2: "requestsOf (snd (sendAttachments w c tok as h1))
                   = requestsOf h1 @ attachmentCalls c tok (zip as flags)"
        and n: "fst (sendAttachments w c tok as h1) = Inr () \<longrightarrow> length flags = length as"
      using Cons.IH [of h1] by blast
    have "length (f # flags) \<le> length (a # as)" using l by simp
    moreover have "requestsOf (snd (sendAttachments w c tok (a # as) h))
             = requestsOf h @ attachmentCalls c tok (zip (a # as) (f # flags))"
      using d Inr r1 r2 by simp
    moreover have "fst (sendAttachments w c tok (a # as) h) = Inr ()
                   \<longrightarrow> length (f # flags) = length (a # as)"
      using d Inr n by simp
    ultimately show ?thesis by blast
  qed
qed

lemma attachmentCalls_documents:
  "filter (isSendDocument tok) (attachmentCalls c tok ps)
     = map (\<lambda>a. sendDocumentRequest c a tok) (map fst ps)"
  by (induction ps)
     (auto simp add: isSendDocument_sendDocumentRequest isSendDocument_sendMessageRequest)

lemma sendMessageRequest_text: "sendMessageRequest c t tok = sendMessageRequest c t' tok \<Longrightarrow> t = t'"
  by (simp add: sendMessageRequest_def)

lemma payload_is_no_notice: "messagePayloadOf email to s sn \<noteq> oversizeNotice a"
  by (simp add: messagePayloadOf_def oversizeNotice_def glyph_def)

lemma notification_not_in_attachmentCalls:
  "notificationRequest e email c s \<notin> set (attachmentCalls c (TELEGRAM_BOT_TOKEN e) ps)"
proof (induction ps)
  case Nil
  then show ?case by simp
next
  case (Cons p ps)
  obtain a f where p: "p = (a, f)" by (cases p)
  have d: "notificationRequest e email c s \<noteq> sendDocumentRequest c a (TELEGRAM_BOT_TOKEN e)"
    unfolding notificationRequest_def
    using isSendDocument_sendDocumentRequest isSendDocument_sendMessageRequest by metis
  have n: "notificationRequest e email c s
             \<noteq> sendMessageRequest c (oversizeNotice a) (TELEGRAM_BOT_TOKEN e)"
    unfolding notificationRequest_def
    using sendMessageRequest_text payload_is_no_notice by blast
  show ?case using Cons.IH p d n by simp
qed

text \<open>
  Claim C2, as the code has it. Take a routed email and a configured bot token. In every
  world the calls of \<open>onEmail\<close> are, in this order: the notification (a text send), then
  for the attachments, in the order of the input and as far as the run gets, the file
  transfer of each, followed by its oversize notice where there is one. So the
  notification comes first and does not occur again, and the file transfers are those of
  the first attachments, in their order. When every call that the run makes receives a
  response, of whatever status, \<open>onEmail\<close> returns normally and the run gets to the end:
  there is exactly one file transfer for each attachment. The trace is sequential: a call
  is entered in it after the world has answered the call before.
\<close>

theorem dispatch_order:
  assumes route: "chatIdOf (emailTo email) = Some chatId"
      and token: "TELEGRAM_BOT_TOKEN e \<noteq> []"
  shows "\<exists>aiSummary flags.
           length flags \<le> length (parsedAttachments (emailParsed email))
         \<and> requestsOf (snd (onEmail e w email h))
             = requestsOf h
               @ notificationRequest e email chatId aiSummary
               # attachmentCalls chatId (TELEGRAM_BOT_TOKEN e)
                   (zip (parsedAttachments (emailParsed email)) flags)
         \<and> filter (isSendDocument (TELEGRAM_BOT_TOKEN e))
               (attachmentCalls chatId (TELEGRAM_BOT_TOKEN e)
                  (zip (parsedAttachments (emailParsed email)) flags))
             = map (\<lambda>a. sendDocumentRequest chatId a (TELEGRAM_BOT_TOKEN e))
                 (take (length flags) (parsedAttachments (emailParsed email)))
         \<and> notificationRequest e email chatId aiSummary
             \<notin> set (attachmentCalls chatId (TELEGRAM_BOT_TOKEN e)
                      (zip (parsedAttachments (emailParsed email)) flags))
         \<and> isSendMessage (TELEGRAM_BOT_TOKEN e) (notificationRequest e email chatId aiSummary)
         \<and> (allAnswered w h (snd (onEmail e w email h)) \<longrightarrow>
              fst (onEmail e w email h) = Inr ()
              \<and> length flags = length (parsedAttachments (emailParsed email)))"
proof -
  let ?tok = "TELEGRAM_BOT_TOKEN e"
  let ?as = "parsedAttachments (emailParsed email)"
  let ?s = "summaryStep w (cleanTextBodyOf email) h"
  let ?n = "notificationRequest e email chatId (fst ?s)"
  let ?m = "sendTelegramMessage w chatId
             (messagePayloadOf email (toLowerCase (emailTo email)) (fst ?s) (snippetOf (cleanTextBodyOf email)))
             ?tok (snd ?s)"
  obtain res h2 where m: "?m = (res, h2)" by (cases ?m)
  have r1: "requestsOf h2 = requestsOf h @ [?n]"
  proof -
    have "h2 = snd ?m" using m by simp
    then show ?thesis
      by (simp add: sendTelegramMessage_requests summaryStep_requests notificationRequest_def)
  qed
  let ?a = "sendAttachments w chatId ?tok ?as h2"
  obtain fl where l: "length fl \<le> length ?as"
      and r2: "requestsOf (snd ?a) = requestsOf h2 @ attachmentCalls chatId ?tok (zip ?as fl)"
      and full: "fst ?a = Inr () \<longrightarrow> length fl = length ?as"
    using sendAttachments_calls by blast
  have normal: "allAnswered w h (snd (onEmail e w email h)) \<longrightarrow> fst (onEmail e w email h) = Inr ()"
    using onEmail_answered [OF route token] by blast
  have "\<exists>flags. length flags \<le> length ?as
          \<and> requestsOf (snd (onEmail e w email h))
              = requestsOf h @ ?n # attachmentCalls chatId ?tok (zip ?as flags)
          \<and> (fst (onEmail e w email h) = Inr () \<longrightarrow> length flags = length ?as)"
  proof (cases "res = Inr () \<and> 0 < length ?as")
    case True
    then have "onEmail e w email h = ?a"
      unfolding onEmail_routed [OF route token] m by simp
    then show ?thesis using l r1 r2 full by auto
  next
    case False
    then have stop: "onEmail e w email h = (res, h2)"
      unfolding onEmail_routed [OF route token] m by (cases res) auto
    have "length ([] :: bool list) \<le> length ?as" by simp
    moreover have "requestsOf (snd (onEmail e w email h))
              = requestsOf h @ ?n # attachmentCalls chatId ?tok (zip ?as [])"
      using stop r1 by simp
    moreover have "fst (onEmail e w email h) = Inr () \<longrightarrow> length ([] :: bool list) = length ?as"
      using stop False by auto
    ultimately show ?thesis by blast
  qed
  then obtain flags where fl: "length flags \<le> length ?as"
      and calls: "requestsOf (snd (onEmail e w email h))
              = requestsOf h @ ?n # attachmentCalls chatId ?tok (zip ?as flags)"
      and whole: "fst (onEmail e w email h) = Inr () \<longrightarrow> length flags = length ?as"
    by blast
  have docs: "filter (isSendDocument ?tok) (attachmentCalls chatId ?tok (zip ?as flags))
             = map (\<lambda>a. sendDocumentRequest chatId a ?tok) (take (length flags) ?as)"
    using fl by (simp add: attachmentCalls_documents map_fst_zip_take min_def)
  have once: "?n \<notin> set (attachmentCalls chatId ?tok (zip ?as flags))"
    by (rule notification_not_in_attachmentCalls)
  have snd_msg: "isSendMessage ?tok ?n"
    by (simp add: notificationRequest_def isSendMessage_sendMessageRequest)
  show ?thesis
    using fl calls docs once snd_msg normal whole by blast
qed

theorem dispatch_order_witness:
  "fst (onEmail sampleEnv oversizeWorld sampleEmail []) = Inr ()
   \<and> filter (isSendDocument ''T'') (requestsOf (snd (onEmail sampleEnv oversizeWorld sampleEmail [])))
       = [sendDocumentRequest ''42'' reportPdf ''T'', sendDocumentRequest ''42'' notesTxt ''T'']
   \<and> fst (onEmail sampleEnv rejectingWorld helloEmail []) = Inr ()"
proof -
  have route: "chatIdOf (emailTo sampleEmail) = Some ''42''" by code_simp
  have token: "TELEGRAM_BOT_TOKEN sampleEnv \<noteq> []" by (simp add: sampleEnv_def)
  have answered: "allAnswered oversizeWorld [] (snd (onEmail sampleEnv oversizeWorld sampleEmail []))"
    by code_simp
  have tok: "TELEGRAM_BOT_TOKEN sampleEnv = ''T''" by (simp add: sampleEnv_def)
  have as: "parsedAttachments (emailParsed sampleEmail) = [reportPdf, notesTxt]"
    by (simp add: sampleEmail_def)
  obtain aiSummary flags where
        c: "requestsOf (snd (onEmail sampleEnv oversizeWorld sampleEmail []))
             = requestsOf []
               @ notificationRequest sampleEnv sampleEmail ''42'' aiSummary
               # attachmentCalls ''42'' (TELEGRAM_BOT_TOKEN sampleEnv)
                   (zip (parsedAttachments (emailParsed sampleEmail)) flags)"
    and d: "filter (isSendDocument (TELEGRAM_BOT_TOKEN sampleEnv))
               (attachmentCalls ''42'' (TELEGRAM_BOT_TOKEN sampleEnv)
                  (zip (parsedAttachments (emailParsed sampleEmail)) flags))
             = map (\<lambda>a. sendDocumentRequest ''42'' a (TELEGRAM_BOT_TOKEN sampleEnv))
                 (take (length flags) (parsedAttachments (emailParsed sampleEmail)))"
    and r: "allAnswered oversizeWorld [] (snd (onEmail sampleEnv oversizeWorld sampleEmail [])) \<longrightarrow>
              fst (onEmail sampleEnv oversizeWorld sampleEmail []) = Inr ()
              \<and> length flags = length (parsedAttachments (emailParsed sampleEmail))"
    using dispatch_order [OF route token, of oversizeWorld "[]"] by blast
  have n: "\<not> isSendDocument ''T'' (notificationRequest sampleEnv sampleEmail ''42'' aiSummary)"
    by (simp add: notificationRequest_def tok isSendDocument_sendMessageRequest)
  have first: "fst (onEmail sampleEnv oversizeWorld sampleEmail []) = Inr ()
   \<and> filter (isSendDocument ''T'') (requestsOf (snd (onEmail sampleEnv oversizeWorld sampleEmail [])))
       = [sendDocumentRequest ''42'' reportPdf ''T'', sendDocumentRequest ''42'' notesTxt ''T'']"
    using r answered c d n by (simp add: tok as)
  have route2: "chatIdOf (emailTo helloEmail) = Some ''42''" by code_simp
  have answered2: "allAnswered rejectingWorld [] (snd (onEmail sampleEnv rejectingWorld helloEmail []))"
    by code_simp
  have "fst (onEmail sampleEnv rejectingWorld helloEmail []) = Inr ()"
    using dispatch_order [OF route2 token, of rejectingWorld "[]"] answered2 by blast
  then show ?thesis using first by simp
qed

text \<open>
  Without a bot token a routed email ends in the configuration error, before any call;
  and when the transfer of the first of two attachments is rejected, the error leaves the
  loop and the second attachment is never tried.
\<close>

theorem dispatch_order_counterexample:
  "chatIdOf (emailTo sampleEmail) = Some ''42''
   \<and> onEmail unconfiguredEnv quietWorld sampleEmail [] = (Inl tokenMissing, [])
   \<and> parsedAttachments (emailParsed sampleEmail) = [reportPdf, notesTxt]
   \<and> fst (onEmail sampleEnv rejectingWorld sampleEmail []) = Inl (Thrown ''network error'')
   \<and> filter (isSendDocument ''T'') (requestsOf (snd (onEmail sampleEnv rejectingWorld sampleEmail [])))
       = [sendDocumentRequest ''42'' reportPdf ''T'']"
  by code_simp

section \<open>The provisioning command\<close>

lemma trim_keeps_prefix:
  assumes "startsWith t p" and "p \<noteq> []" and "\<not> isWhiteSpace (hd p)" and "\<not> isWhiteSpace (last p)"
  shows "startsWith (trim t) p"
proof -
  obtain r where t: "t = p @ r"
    using assms(1) unfolding startsWith_def by (metis append_take_drop_id)
  have head_kept: "dropWhile isWhiteSpace (p @ r) = p @ r"
    using assms(2,3) by (cases p) simp_all
  have tail_kept: "dropWhile isWhiteSpace (rev p) = rev p"
    using assms(2,4) by (cases "rev p") (simp_all add: hd_rev [symmetric])
  have "\<exists>x. dropWhile isWhiteSpace (rev r @ rev p) = x @ rev p"
  proof (cases "\<forall>c\<in>set (rev r). isWhiteSpace c")
    case True
    then have "dropWhile isWhiteSpace (rev r @ rev p) = dropWhile isWhiteSpace (rev p)"
      by (simp add: dropWhile_append)
    then show ?thesis using tail_kept by (metis append_Nil)
  next
    case False
    then obtain c where "c \<in> set (rev r)" and "\<not> isWhiteSpace c" by blast
    then have "dropWhile isWhiteSpace (rev r @ rev p) = dropWhile isWhiteSpace (rev r) @ rev p"
      by (rule dropWhile_append1)
    then show ?thesis by blast
  qed
  then obtain x where "dropWhile isWhiteSpace (rev r @ rev p) = x @ rev p" by blast
  then have "trim t = p @ rev x"
    unfolding trim_def t head_kept by simp
  then show ?thesis by (simp add: startsWith_def)
qed

lemma welcome_names_address:
  "contains (textOf (welcomeCall e c)) (''tempmail+'' @ showInt c @ ''@'' @ DOMAIN e)"
proof -
  have "textOf (welcomeCall e c) = welcomeMsg (userEmailOf c (DOMAIN e))"
    by (simp add: textOf_def bodyField_def welcomeCall_def welcomeRequest_def)
  moreover have "welcomeMsg (userEmailOf c (DOMAIN e))
      = (glyph ''U+2728'' @ '' <b>Premium AI TempMail Bot</b> '' @ glyph ''U+2728'' @ nl @ nl
         @ ''Your secure, disposable email address is active:'' @ nl @ nl
         @ glyph ''U+1F4E7'' @ '' <code>'')
        @ (''tempmail+'' @ showInt c @ ''@'' @ DOMAIN e)
        @ (''</code>'' @ nl @ nl
     @ ''<i>Tap the address to copy. Messages and attachments will be instantly delivered here with an AI-generated summary.</i>'' @ nl @ nl
     @ glyph ''U+1F6E1'' @ glyph ''U+FE0F'' @ '' <b>Powered by Cloudflare Agents</b>'' @ nl
     @ glyph ''U+1F4E3'' @ '' <b>Updates:</b> @drkingbd'')"
    by (simp add: welcomeMsg_def userEmailOf_def)
  ultimately show ?thesis using contains_middle by metis
qed

lemma handleUpdate_start:
  assumes "reqJson request = Some update" and "callback_query update = None"
    and "message update = Some msg" and "messageText msg = Some t"
    and "startsWith t ''/start''"
  shows "handleUpdate e w request h =
           (case awaitFetch w (welcomeCall e (chat_id msg)) h of
              (Inl err, h') \<Rightarrow> (Inl err, h')
            | (Inr r, h') \<Rightarrow> (Inr okResponse, h'))"
proof -
  have p: "startsWith (trim t) ''/start''"
    using assms(5) by (rule trim_keeps_prefix) (simp_all add: isWhiteSpace_def)
  have "t \<noteq> []" using assms(5) by (auto simp add: startsWith_def)
  then show ?thesis
    using assms(1-4) p by (simp add: handleUpdate_def orElse_def Let_def)
qed

text \<open>
  Claim C8, as the code has it. For a POST to the webhook path whose update is a message
  event with a text that starts with \<open>/start\<close>, the handler makes exactly one call: a
  text send to the chat of the event, whose text contains the address
  \<open>tempmail+<chat id>@<domain>\<close> and whose body has no \<open>reply_markup\<close>. It answers
  200 \<open>OK\<close> when that call gets a response, and 500 when the call is rejected.
\<close>

theorem start_command:
  assumes "reqMethod request = ''POST''" and "pathname request = ''/webhook/telegram''"
    and "reqJson request = Some update" and "callback_query update = None"
    and "message update = Some msg" and "messageText msg = Some t"
    and "startsWith t ''/start''"
  shows "requestsOf (snd (fetchHandler e w request h)) = requestsOf h @ [welcomeCall e (chat_id msg)]
       \<and> isSendMessage (TELEGRAM_BOT_TOKEN e) (welcomeCall e (chat_id msg))
       \<and> bodyField ''chat_id'' (welcomeCall e (chat_id msg)) = Some (JNum (chat_id msg))
       \<and> contains (textOf (welcomeCall e (chat_id msg)))
            (''tempmail+'' @ showInt (chat_id msg) @ ''@'' @ DOMAIN e)
       \<and> bodyField ''reply_markup'' (welcomeCall e (chat_id msg)) = None
       \<and> \<not> hasDismissKeyboard (welcomeCall e (chat_id msg))
       \<and> (\<forall>st b. fetch w h (welcomeCall e (chat_id msg)) = Response st b \<longrightarrow>
             fst (fetchHandler e w request h) = \<lparr> respBody = ''OK'', respStatus = 200 \<rparr>)
       \<and> (\<forall>err. fetch w h (welcomeCall e (chat_id msg)) = Rejected err \<longrightarrow>
             fst (fetchHandler e w request h)
               = \<lparr> respBody = ''Internal Server Error'', respStatus = 500 \<rparr>)"
proof -
  let ?c = "welcomeCall e (chat_id msg)"
  have run: "fetchHandler e w request h =
     (case fetch w h ?c of
        Rejected err \<Rightarrow>
          (\<lparr> respBody = ''Internal Server Error'', respStatus = 500 \<rparr>,
           h @ [Fetch ?c, ConsoleError [''Failed to process webhook:'', err]])
      | Response st b \<Rightarrow> (okResponse, h @ [Fetch ?c]))"
    using assms(1,2) handleUpdate_start [OF assms(3-7), of e w h]
    by (simp add: fetchHandler_def awaitFetch_def errorText_def split: fetchResult.splits)
  have calls: "requestsOf (snd (fetchHandler e w request h)) = requestsOf h @ [?c]"
    unfolding run by (simp add: requestsOf_append split: fetchResult.splits)
  have shape: "isSendMessage (TELEGRAM_BOT_TOKEN e) ?c
       \<and> bodyField ''chat_id'' ?c = Some (JNum (chat_id msg))
       \<and> bodyField ''reply_markup'' ?c = None
       \<and> \<not> hasDismissKeyboard ?c"
    by (simp add: isSendMessage_def hasDismissKeyboard_def callbackDataOf_def buttonsOf_def
          bodyField_def welcomeCall_def welcomeRequest_def)
  have answered: "\<forall>st b. fetch w h ?c = Response st b \<longrightarrow>
             fst (fetchHandler e w request h) = \<lparr> respBody = ''OK'', respStatus = 200 \<rparr>"
    unfolding run by (simp add: okResponse_def)
  have rejected: "\<forall>err. fetch w h ?c = Rejected err \<longrightarrow>
             fst (fetchHandler e w request h)
               = \<lparr> respBody = ''Internal Server Error'', respStatus = 500 \<rparr>"
    unfolding run by simp
  show ?thesis
    using calls shape welcome_names_address [of e "chat_id msg"] answered rejected by blast
qed

theorem start_command_witness:
  "requestsOf (snd (fetchHandler sampleEnv quietWorld startRequest [])) = [welcomeCall sampleEnv 7]
   \<and> contains (textOf (welcomeCall sampleEnv 7)) ''tempmail+7@example.com''
   \<and> fst (fetchHandler sampleEnv quietWorld startRequest []) = \<lparr> respBody = ''OK'', respStatus = 200 \<rparr>"
proof -
  have m: "message startUpdate = Some \<lparr> message_id = 5, chat_id = 7, chat_type = ''private'',
                        messageText = Some ''/start'' \<rparr>"
    by (simp add: startUpdate_def)
  have s: "showInt 7 = ''7''" by code_simp
  have f: "fetch quietWorld [] (welcomeCall sampleEnv 7) = Response 200 ''{}''"
    by (simp add: quietWorld_def)
  have d: "DOMAIN sampleEnv = ''example.com''" by (simp add: sampleEnv_def)
  show ?thesis
    using start_command [of startRequest startUpdate _ "''/start''" sampleEnv quietWorld "[]", OF _ _ _ _ m]
          f s d
    by (simp add: startRequest_def startUpdate_def startsWith_def)
qed

text \<open>When the send is rejected, the \<open>catch\<close> of the handler answers 500.\<close>

theorem start_command_counterexample:
  "fst (fetchHandler sampleEnv offlineWorld startRequest [])
     = \<lparr> respBody = ''Internal Server Error'', respStatus = 500 \<rparr>
   \<and> requestsOf (snd (fetchHandler sampleEnv offlineWorld startRequest [])) = [welcomeCall sampleEnv 7]"
  by code_simp

end
